theory Spec2Isabelle
  imports Complex_Main "HOL-Library.Multiset"
begin

section \<open>Exceptions, time and log records\<close>

text \<open>
  The exceptions that \<^verbatim>\<open>cycle_data.py\<close> raises, catches or lets through.
  \<open>NegativeIndexing\<close> is what Django raises when a queryset is sliced with a negative
  bound ("Negative indexing is not supported."); \<open>ProgrammingError\<close> is the database
  refusing a statement; \<open>OtherError\<close> stands for any exception the module neither raises
  nor names.
\<close>

datatype error =
    IndexError
  | ValueError string
  | OverflowError
  | NegativeIndexing
  | DoesNotExist
  | MultipleObjectsReturned
  | ProgrammingError
  | OperationalError string
  | MaxRuntimeExceeded string
  | OtherError string

text \<open>
  \<^verbatim>\<open>datetime.timedelta\<close> is a number of microseconds, \<^verbatim>\<open>datetime.datetime\<close> the number of
  microseconds since 0001-01-01T00:00:00. Both types of Python are bounded: a timedelta
  holds at most 999999999 days in magnitude, a datetime lies in the years 1 to 9999
  (3652059 days), and leaving either range raises OverflowError.
\<close>

type_synonym timedelta = int
type_synonym datetime = int

definition usec_per_day :: int where
  "usec_per_day = 86400000000"

definition timedelta_days :: "int \<Rightarrow> error + timedelta" where
  "timedelta_days days =
     (if \<bar>days\<bar> \<le> 999999999 then Inr (days * usec_per_day) else Inl OverflowError)"

definition timedelta_weeks :: "int \<Rightarrow> error + timedelta" where
  "timedelta_weeks weeks = timedelta_days (7 * weeks)"

definition timedelta_hours :: "int \<Rightarrow> timedelta" where
  "timedelta_hours hours = hours * 3600000000"

definition datetime_sub :: "datetime \<Rightarrow> timedelta \<Rightarrow> error + datetime" where
  "datetime_sub t d =
     (let r = t - d
      in if 0 \<le> r \<and> r < 3652059 * usec_per_day then Inr r else Inl OverflowError)"

text \<open>
  A log record is the level and the message handed to the logger. A message built with
  \<^verbatim>\<open>'...{}...'.format(a, b)\<close> is kept as the format string and its arguments; a message
  that is an exception object (\<^verbatim>\<open>logger.warning(ex)\<close>) is kept as that exception.
\<close>

datatype level = WARNING | ERROR

datatype arg = ArgInt int | ArgStr string | ArgErr error

datatype message = Text string | Format string "arg list" | Exc error

type_synonym log_record = "level \<times> message"

section \<open>The store\<close>

record performance_datum =
  datum_id :: int
  repository_id :: int
  push_timestamp :: datetime

record repository =
  repo_id :: int
  repo_name :: string

text \<open>A job row with its three foreign keys into the ancillary tables, none of them nullable.\<close>

record job =
  job_id :: int
  job_type_id :: int
  job_group_id :: int
  machine_id :: int

text \<open>
  A row of one of the three ancillary tables (job types, job groups, machines): its
  primary key and the rest of the row.
\<close>

record ancillary =
  anc_id :: int
  anc_name :: string

datatype model = JobType | JobGroup | Machine

text \<open>The statements the module sends to the database, as it writes them.\<close>

datatype statement =
    Delete_performance_datum "int option" datetime int
  | Delete_id_in model "int list"

record database =
  performance_datum_tbl :: "performance_datum list"
  repository_tbl :: "repository list"
  job_tbl :: "job list"
  job_type_tbl :: "ancillary list"
  job_group_tbl :: "ancillary list"
  machine_tbl :: "ancillary list"

text \<open>
  The world a cycling run acts on: the tables, the statements executed so far (oldest
  first) and the records logged so far (oldest first). The command hands its module
  logger to the cycler, so \<^verbatim>\<open>logger\<close> and \<^verbatim>\<open>self.logger\<close> write to the same log.
\<close>

record world =
  db :: database
  executed :: "statement list"
  logged :: "log_record list"

definition logger_warning :: "message \<Rightarrow> world \<Rightarrow> world" where
  "logger_warning m w = w\<lparr>logged := logged w @ [(WARNING, m)]\<rparr>"

definition logger_error :: "message \<Rightarrow> world \<Rightarrow> world" where
  "logger_error m w = w\<lparr>logged := logged w @ [(ERROR, m)]\<rparr>"

section \<open>Querysets\<close>

text \<open>
  A queryset is the list of rows it evaluates to. \<^verbatim>\<open>qs[0]\<close> raises IndexError on an
  empty result; \<^verbatim>\<open>qs[:k]\<close> refuses a negative \<open>k\<close> and otherwise keeps the first \<open>k\<close> rows;
  \<^verbatim>\<open>get\<close> wants exactly one row.
\<close>

definition qs_index0 :: "'a list \<Rightarrow> error + 'a" where
  "qs_index0 qs = (case qs of [] \<Rightarrow> Inl IndexError | x # _ \<Rightarrow> Inr x)"

definition qs_slice_to :: "int \<Rightarrow> 'a list \<Rightarrow> error + 'a list" where
  "qs_slice_to k qs = (if k < 0 then Inl NegativeIndexing else Inr (take (nat k) qs))"

definition qs_get :: "'a list \<Rightarrow> error + 'a" where
  "qs_get qs =
     (case qs of
        [] \<Rightarrow> Inl DoesNotExist
      | [x] \<Rightarrow> Inr x
      | _ \<Rightarrow> Inl MultipleObjectsReturned)"

definition order_by :: "('a \<Rightarrow> int) \<Rightarrow> 'a list \<Rightarrow> 'a list" where
  "order_by key qs = sort_key key qs"

definition order_by_desc :: "('a \<Rightarrow> int) \<Rightarrow> 'a list \<Rightarrow> 'a list" where
  "order_by_desc key qs = rev (sort_key key qs)"

text \<open>
  \<^verbatim>\<open>DELETE ... WHERE P LIMIT n\<close>: the engine walks the table and removes the rows that
  satisfy \<open>P\<close> until it has removed \<open>n\<close> of them. The list order of a table is the order
  of that walk; which rows go first is the engine's choice, so nothing below depends on
  a particular order.
\<close>

fun delete_limit :: "('a \<Rightarrow> bool) \<Rightarrow> nat \<Rightarrow> 'a list \<Rightarrow> 'a list" where
  "delete_limit P 0 xs = xs"
| "delete_limit P (Suc n) [] = []"
| "delete_limit P (Suc n) (x # xs) =
     (if P x then delete_limit P n xs else x # delete_limit P (Suc n) xs)"

text \<open>
  \<^verbatim>\<open>using.execute\<close> of the two DELETE statements on \<^verbatim>\<open>performance_datum\<close>: the optional
  first parameter is the repository the statement is restricted to. A negative LIMIT is
  a syntax error of the database.
\<close>

definition execute_delete :: "int option \<Rightarrow> datetime \<Rightarrow> int \<Rightarrow> world \<Rightarrow> (error + unit) \<times> world" where
  "execute_delete repo max_timestamp limit w =
     (if limit < 0 then (Inl ProgrammingError, w)
      else
        (Inr (),
         w\<lparr>db := (db w)\<lparr>performance_datum_tbl :=
              delete_limit
                (\<lambda>r. (case repo of None \<Rightarrow> True | Some i \<Rightarrow> repository_id r = i)
                      \<and> push_timestamp r < max_timestamp)
                (nat limit) (performance_datum_tbl (db w))\<rparr>,
           executed := executed w @ [Delete_performance_datum repo max_timestamp limit]\<rparr>))"

section \<open>Removal strategies\<close>

record MainRemovalStrategy =
  main_cycle_interval :: timedelta
  main_chunk_size :: int
  main_max_timestamp :: datetime

text \<open>
  \<^verbatim>\<open>MainRemovalStrategy.__init__\<close>; \<open>now\<close> is what \<^verbatim>\<open>datetime.datetime.now()\<close> returns
  there, the only place where the strategy reads the clock.
\<close>

definition MainRemovalStrategy_init :: "datetime \<Rightarrow> timedelta \<Rightarrow> int \<Rightarrow> error + MainRemovalStrategy" where
  "MainRemovalStrategy_init now cycle_interval chunk_size =
     (case datetime_sub now cycle_interval of
        Inl e \<Rightarrow> Inl e
      | Inr t \<Rightarrow>
          Inr \<lparr>main_cycle_interval = cycle_interval, main_chunk_size = chunk_size,
               main_max_timestamp = t\<rparr>)"

definition Main_find_ideal_chunk_size :: "MainRemovalStrategy \<Rightarrow> database \<Rightarrow> error + int" where
  "Main_find_ideal_chunk_size self d =
     (case qs_index0 (order_by_desc datum_id
              (filter (\<lambda>r. push_timestamp r > main_max_timestamp self)
                 (performance_datum_tbl d))) of
        Inl e \<Rightarrow> Inl e
      | Inr newest \<Rightarrow>
          (let max_id = datum_id newest
           in case qs_slice_to (main_chunk_size self)
                  (order_by datum_id
                     (filter (\<lambda>r. push_timestamp r \<le> main_max_timestamp self \<and> datum_id r \<le> max_id)
                        (performance_datum_tbl d))) of
                Inl e \<Rightarrow> Inl e
              | Inr older_ids \<Rightarrow>
                  Inr (if int (length older_ids) \<noteq> 0 then int (length older_ids)
                       else main_chunk_size self)))"

definition Main_remove :: "MainRemovalStrategy \<Rightarrow> world \<Rightarrow> (error + unit) \<times> world" where
  "Main_remove self w =
     (case Main_find_ideal_chunk_size self (db w) of
        Inl e \<Rightarrow> (Inl e, w)
      | Inr chunk_size \<Rightarrow> execute_delete None (main_max_timestamp self) chunk_size w)"

record TryDataRemoval =
  try_cycle_interval :: timedelta
  try_chunk_size :: int
  try_max_timestamp :: datetime
  try_repo_id :: "int option"

definition TryDataRemoval_init :: "datetime \<Rightarrow> int \<Rightarrow> error + TryDataRemoval" where
  "TryDataRemoval_init now chunk_size =
     (case timedelta_weeks 4 of
        Inl e \<Rightarrow> Inl e
      | Inr cycle_interval \<Rightarrow>
          (case datetime_sub now cycle_interval of
             Inl e \<Rightarrow> Inl e
           | Inr t \<Rightarrow>
               Inr \<lparr>try_cycle_interval = cycle_interval, try_chunk_size = chunk_size,
                    try_max_timestamp = t, try_repo_id = None\<rparr>))"

text \<open>
  The property \<^verbatim>\<open>try_repo\<close>: the id of the repository named \<^verbatim>\<open>try\<close>, looked up on the
  first use and kept in the strategy afterwards. It returns the id and the strategy with
  its cache filled.
\<close>

definition try_repo :: "TryDataRemoval \<Rightarrow> database \<Rightarrow> error + (int \<times> TryDataRemoval)" where
  "try_repo self d =
     (case try_repo_id self of
        Some i \<Rightarrow> Inr (i, self)
      | None \<Rightarrow>
          (case qs_get (filter (\<lambda>r. repo_name r = ''try'') (repository_tbl d)) of
             Inl e \<Rightarrow> Inl e
           | Inr r \<Rightarrow> Inr (repo_id r, self\<lparr>try_repo_id := Some (repo_id r)\<rparr>)))"

definition Try_find_ideal_chunk_size ::
  "TryDataRemoval \<Rightarrow> database \<Rightarrow> (error + int) \<times> TryDataRemoval" where
  "Try_find_ideal_chunk_size self d =
     (case try_repo self d of
        Inl e \<Rightarrow> (Inl e, self)
      | Inr (repo1, self1) \<Rightarrow>
          (case qs_index0 (order_by_desc datum_id
                   (filter (\<lambda>r. push_timestamp r > try_max_timestamp self1 \<and> repository_id r = repo1)
                      (performance_datum_tbl d))) of
             Inl e \<Rightarrow> (Inl e, self1)
           | Inr newest \<Rightarrow>
               (let max_id = datum_id newest
                in case try_repo self1 d of
                     Inl e \<Rightarrow> (Inl e, self1)
                   | Inr (repo2, self2) \<Rightarrow>
                       (case qs_slice_to (try_chunk_size self2)
                              (order_by datum_id
                                 (filter (\<lambda>r. push_timestamp r \<le> try_max_timestamp self2
                                            \<and> datum_id r \<le> max_id \<and> repository_id r = repo2)
                                    (performance_datum_tbl d))) of
                          Inl e \<Rightarrow> (Inl e, self2)
                        | Inr older_ids \<Rightarrow>
                            (Inr (if int (length older_ids) \<noteq> 0 then int (length older_ids)
                                  else try_chunk_size self2), self2)))))"

definition Try_remove :: "TryDataRemoval \<Rightarrow> world \<Rightarrow> (error + unit) \<times> TryDataRemoval \<times> world" where
  "Try_remove self w =
     (case Try_find_ideal_chunk_size self (db w) of
        (Inl e, self1) \<Rightarrow> (Inl e, self1, w)
      | (Inr chunk_size, self1) \<Rightarrow>
          (case try_repo self1 (db w) of
             Inl e \<Rightarrow> (Inl e, self1, w)
           | Inr (repo, self2) \<Rightarrow>
               (case execute_delete (Some repo) (try_max_timestamp self2) chunk_size w of
                  (r, w') \<Rightarrow> (r, self2, w'))))"

text \<open>
  Successive calls of \<^verbatim>\<open>remove\<close> on one strategy object, as a caller that loops over
  chunks makes them; the first call that raises ends the sequence.
\<close>

fun Main_remove_n :: "nat \<Rightarrow> MainRemovalStrategy \<Rightarrow> world \<Rightarrow> (error + unit) \<times> world" where
  "Main_remove_n 0 self w = (Inr (), w)"
| "Main_remove_n (Suc n) self w =
     (case Main_remove self w of
        (Inl e, w') \<Rightarrow> (Inl e, w')
      | (Inr _, w') \<Rightarrow> Main_remove_n n self w')"

fun Try_remove_n :: "nat \<Rightarrow> TryDataRemoval \<Rightarrow> world \<Rightarrow> (error + unit) \<times> TryDataRemoval \<times> world" where
  "Try_remove_n 0 self w = (Inr (), self, w)"
| "Try_remove_n (Suc n) self w =
     (case Try_remove self w of
        (Inl e, self', w') \<Rightarrow> (Inl e, self', w')
      | (Inr _, self', w') \<Rightarrow> Try_remove_n n self' w')"

text \<open>The rows of \<^verbatim>\<open>performance_datum\<close> that are in the first world and gone in the second.\<close>

definition deleted_rows :: "world \<Rightarrow> world \<Rightarrow> performance_datum multiset" where
  "deleted_rows w w' =
     mset (performance_datum_tbl (db w)) - mset (performance_datum_tbl (db w'))"

text \<open>What one statement, and what a sequence of calls, may do to the table.\<close>

definition only_deletes :: "(performance_datum \<Rightarrow> bool) \<Rightarrow> world \<Rightarrow> world \<Rightarrow> bool" where
  "only_deletes P w w' \<longleftrightarrow>
     mset (performance_datum_tbl (db w')) \<subseteq># mset (performance_datum_tbl (db w)) \<and>
     (\<forall>x \<in># deleted_rows w w'. P x)"

section \<open>Data cyclers\<close>

definition MINIMUM_PERFHERDER_EXPIRE_INTERVAL :: int where
  "MINIMUM_PERFHERDER_EXPIRE_INTERVAL = 365"

record settings =
  SITE_HOSTNAME :: string

record DataCycler =
  cycler_cycle_interval :: timedelta
  cycler_chunk_size :: int
  cycler_sleep_time :: int
  cycler_is_debug :: bool

text \<open>
  \<^verbatim>\<open>DataCycler.__init__\<close>: \<^verbatim>\<open>is_debug\<close> may be absent (None); the logger is the log of
  the world.
\<close>

definition DataCycler_init :: "int \<Rightarrow> int \<Rightarrow> int \<Rightarrow> bool option \<Rightarrow> error + DataCycler" where
  "DataCycler_init days chunk_size sleep_time is_debug =
     (case timedelta_days days of
        Inl e \<Rightarrow> Inl e
      | Inr interval \<Rightarrow>
          Inr \<lparr>cycler_cycle_interval = interval, cycler_chunk_size = chunk_size,
               cycler_sleep_time = sleep_time,
               cycler_is_debug = (case is_debug of Some True \<Rightarrow> True | _ \<Rightarrow> False)\<rparr>)"

definition PerfherderCycler_init ::
  "settings \<Rightarrow> int \<Rightarrow> int \<Rightarrow> int \<Rightarrow> bool option \<Rightarrow> error + DataCycler" where
  "PerfherderCycler_init conf days chunk_size sleep_time is_debug =
     (case DataCycler_init days chunk_size sleep_time is_debug of
        Inl e \<Rightarrow> Inl e
      | Inr self \<Rightarrow>
          if days < MINIMUM_PERFHERDER_EXPIRE_INTERVAL
             \<and> SITE_HOSTNAME conf \<noteq> ''treeherder-prototype2.herokuapp.com''
          then Inl (ValueError ''Cannot remove performance data that is more recent than 365 days'')
          else Inr self)"

definition max_runtime :: timedelta where
  "max_runtime = timedelta_hours 23"

datatype removal_strategy = Main MainRemovalStrategy | Try TryDataRemoval

text \<open>
  The list \<^verbatim>\<open>removal_strategies\<close> that \<^verbatim>\<open>PerfherderCycler.cycle\<close> builds; \<open>now_main\<close> and
  \<open>now_try\<close> are the clock readings inside the two constructors.
\<close>

definition removal_strategies ::
  "DataCycler \<Rightarrow> datetime \<Rightarrow> datetime \<Rightarrow> error + removal_strategy list" where
  "removal_strategies self now_main now_try =
     (case MainRemovalStrategy_init now_main (cycler_cycle_interval self) (cycler_chunk_size self) of
        Inl e \<Rightarrow> Inl e
      | Inr m \<Rightarrow>
          (case TryDataRemoval_init now_try (cycler_chunk_size self) of
             Inl e \<Rightarrow> Inl e
           | Inr t \<Rightarrow> Inr [Main m, Try t]))"

text \<open>
  \<^verbatim>\<open>PerfherderCycler.cycle\<close>. The manager method \<^verbatim>\<open>PerformanceDatum.objects.cycle_data\<close>
  lives in another module and is the parameter \<open>cycle_data\<close>: given the strategies, the
  start time and the budget it changes the world and returns or raises.
\<close>

definition PerfherderCycler_cycle ::
  "(removal_strategy list \<Rightarrow> datetime \<Rightarrow> timedelta \<Rightarrow> world \<Rightarrow> (error + unit) \<times> world) \<Rightarrow>
   DataCycler \<Rightarrow> datetime \<Rightarrow> datetime \<Rightarrow> datetime \<Rightarrow> world \<Rightarrow> (error + unit) \<times> world" where
  "PerfherderCycler_cycle cycle_data self started_at now_main now_try w =
     (case removal_strategies self now_main now_try of
        Inl e \<Rightarrow> (Inl e, w)
      | Inr strategies \<Rightarrow>
          (case cycle_data strategies started_at max_runtime w of
             (Inr _, w') \<Rightarrow> (Inr (), w')
           | (Inl ex, w') \<Rightarrow>
               (case ex of
                  MaxRuntimeExceeded _ \<Rightarrow> (Inr (), logger_warning (Exc ex) w')
                | _ \<Rightarrow> (Inl ex, w'))))"

subsection \<open>Pruning ancillary tables\<close>

definition model_name :: "model \<Rightarrow> string" where
  "model_name m = (case m of JobType \<Rightarrow> ''JobType'' | JobGroup \<Rightarrow> ''JobGroup'' | Machine \<Rightarrow> ''Machine'')"

definition objects :: "model \<Rightarrow> database \<Rightarrow> ancillary list" where
  "objects m d =
     (case m of JobType \<Rightarrow> job_type_tbl d | JobGroup \<Rightarrow> job_group_tbl d | Machine \<Rightarrow> machine_tbl d)"

definition set_objects :: "model \<Rightarrow> ancillary list \<Rightarrow> database \<Rightarrow> database" where
  "set_objects m rows d =
     (case m of
        JobType \<Rightarrow> d\<lparr>job_type_tbl := rows\<rparr>
      | JobGroup \<Rightarrow> d\<lparr>job_group_tbl := rows\<rparr>
      | Machine \<Rightarrow> d\<lparr>machine_tbl := rows\<rparr>)"

text \<open>\<^verbatim>\<open>model.objects.filter(id__in=delete_ids).delete()\<close>\<close>

definition delete_id_in :: "model \<Rightarrow> int list \<Rightarrow> world \<Rightarrow> world" where
  "delete_id_in m delete_ids w =
     w\<lparr>db := set_objects m (filter (\<lambda>r. anc_id r \<notin> set delete_ids) (objects m (db w))) (db w),
       executed := executed w @ [Delete_id_in m delete_ids]\<rparr>"

text \<open>
  The \<^verbatim>\<open>while\<close> loop of \<^verbatim>\<open>prune\<close>. \<^verbatim>\<open>unused_ids\<close> was evaluated by \<^verbatim>\<open>len\<close> before the
  loop, so its slices are slices of that fixed list of ids; the slice \<^verbatim>\<open>[: chunk_size]\<close>
  of the first round is taken from the queryset, which refuses a negative bound. With a
  chunk size of 0 the list never shrinks and the loop does not end: the result is
  \<open>None\<close>.
\<close>

partial_function (option) prune_loop ::
  "DataCycler \<Rightarrow> model \<Rightarrow> int list \<Rightarrow> world \<Rightarrow> ((error + unit) \<times> world) option" where
  "prune_loop self m unused_ids w =
     (if length unused_ids = 0 then Some (Inr (), w)
      else
        (case qs_slice_to (cycler_chunk_size self) unused_ids of
           Inl e \<Rightarrow> Some (Inl e, w)
         | Inr delete_ids \<Rightarrow>
             prune_loop self m (drop (nat (cycler_chunk_size self)) unused_ids)
               (delete_id_in m delete_ids
                  (logger_warning
                     (Format ''deleting {} of {}''
                        [ArgInt (int (length delete_ids)), ArgInt (int (length unused_ids))])
                     w))))"

declare prune_loop.simps [code]

definition prune ::
  "DataCycler \<Rightarrow> (job \<Rightarrow> int) \<Rightarrow> model \<Rightarrow> world \<Rightarrow> ((error + unit) \<times> world) option" where
  "prune self id_name m w =
     (let w1 = logger_warning (Format ''Pruning {}s'' [ArgStr (model_name m)]) w;
          used_ids = remdups (map id_name (job_tbl (db w1)));
          unused_ids = map anc_id (filter (\<lambda>r. anc_id r \<notin> set used_ids) (objects m (db w1)));
          w2 = logger_warning
                 (Format ''Removing {} records from {}''
                    [ArgInt (int (length unused_ids)), ArgStr (model_name m)])
                 w1
      in prune_loop self m unused_ids w2)"

text \<open>Sequencing: the next step runs when the previous one returned normally.\<close>

definition and_then ::
  "((error + unit) \<times> world) option \<Rightarrow> (world \<Rightarrow> ((error + unit) \<times> world) option) \<Rightarrow>
   ((error + unit) \<times> world) option" where
  "and_then r f =
     (case r of
        None \<Rightarrow> None
      | Some (Inl e, w) \<Rightarrow> Some (Inl e, w)
      | Some (Inr _, w) \<Rightarrow> f w)"

definition remove_leftovers :: "DataCycler \<Rightarrow> world \<Rightarrow> ((error + unit) \<times> world) option" where
  "remove_leftovers self w =
     and_then
       (and_then
          (prune self job_type_id JobType
             (logger_warning (Text ''Pruning ancillary data: job types, groups and machines'') w))
          (prune self job_group_id JobGroup))
       (prune self machine_id Machine)"

text \<open>
  \<^verbatim>\<open>TreeherderCycler.cycle\<close>. The manager method \<^verbatim>\<open>Job.objects.cycle_data\<close> lives in another
  module and is the parameter \<open>cycle_data\<close>: it changes the world and returns the number
  of deleted jobs or raises.
\<close>

definition TreeherderCycler_cycle ::
  "(timedelta \<Rightarrow> int \<Rightarrow> int \<Rightarrow> world \<Rightarrow> (error + int) \<times> world) \<Rightarrow>
   DataCycler \<Rightarrow> world \<Rightarrow> ((error + unit) \<times> world) option" where
  "TreeherderCycler_cycle cycle_data self w =
     (case cycle_data (cycler_cycle_interval self) (cycler_chunk_size self) (cycler_sleep_time self)
             (logger_warning (Text ''Cycling jobs across all repositories'') w) of
        (Inr rs_deleted, w1) \<Rightarrow>
          remove_leftovers self (logger_warning (Format ''Deleted {} jobs'' [ArgInt rs_deleted]) w1)
      | (Inl e, w1) \<Rightarrow>
          (case e of
             OperationalError _ \<Rightarrow>
               remove_leftovers self
                 (logger_error (Format ''Error running cycle_data: {}'' [ArgErr e]) w1)
           | _ \<Rightarrow> Some (Inl e, w1)))"

section \<open>Sample inputs\<close>

definition empty_database :: database where
  "empty_database =
     \<lparr>performance_datum_tbl = [], repository_tbl = [], job_tbl = [], job_type_tbl = [],
      job_group_tbl = [], machine_tbl = []\<rparr>"

definition world_of :: "database \<Rightarrow> world" where
  "world_of d = \<lparr>db = d, executed = [], logged = []\<rparr>"

definition old_only_world :: world where
  "old_only_world =
     world_of (empty_database\<lparr>performance_datum_tbl :=
       [\<lparr>datum_id = 1, repository_id = 1, push_timestamp = 5\<rparr>,
        \<lparr>datum_id = 2, repository_id = 2, push_timestamp = 10\<rparr>]\<rparr>)"

definition strategy_at_10 :: MainRemovalStrategy where
  "strategy_at_10 = \<lparr>main_cycle_interval = 7, main_chunk_size = 100, main_max_timestamp = 10\<rparr>"

definition fresh_try_world :: world where
  "fresh_try_world =
     world_of (empty_database\<lparr>
       performance_datum_tbl := [\<lparr>datum_id = 1, repository_id = 4, push_timestamp = 50\<rparr>],
       repository_tbl := [\<lparr>repo_id = 4, repo_name = ''try''\<rparr>]\<rparr>)"

definition mixed_world :: world where
  "mixed_world =
     world_of (empty_database\<lparr>
       performance_datum_tbl :=
         [\<lparr>datum_id = 1, repository_id = 1, push_timestamp = 5\<rparr>,
          \<lparr>datum_id = 2, repository_id = 4, push_timestamp = 6\<rparr>,
          \<lparr>datum_id = 3, repository_id = 4, push_timestamp = 50\<rparr>,
          \<lparr>datum_id = 4, repository_id = 1, push_timestamp = 60\<rparr>],
       repository_tbl :=
         [\<lparr>repo_id = 1, repo_name = ''mozilla-central''\<rparr>, \<lparr>repo_id = 4, repo_name = ''try''\<rparr>]\<rparr>)"

definition empty_try_world :: world where
  "empty_try_world =
     world_of (empty_database\<lparr>
       performance_datum_tbl :=
         [\<lparr>datum_id = 1, repository_id = 1, push_timestamp = 5\<rparr>,
          \<lparr>datum_id = 2, repository_id = 1, push_timestamp = 50\<rparr>],
       repository_tbl :=
         [\<lparr>repo_id = 1, repo_name = ''mozilla-central''\<rparr>, \<lparr>repo_id = 4, repo_name = ''try''\<rparr>]\<rparr>)"

definition try_strategy_at_10 :: TryDataRemoval where
  "try_strategy_at_10 =
     \<lparr>try_cycle_interval = 7, try_chunk_size = 100, try_max_timestamp = 10, try_repo_id = None\<rparr>"

definition main_built_at_100 :: MainRemovalStrategy where
  "main_built_at_100 =
     \<lparr>main_cycle_interval = 2419200000000, main_chunk_size = 100, main_max_timestamp = 10\<rparr>"

definition try_built_late :: TryDataRemoval where
  "try_built_late =
     \<lparr>try_cycle_interval = 2419200000000, try_chunk_size = 100, try_max_timestamp = 10,
      try_repo_id = None\<rparr>"

definition production :: settings where
  "production = \<lparr>SITE_HOSTNAME = ''treeherder.mozilla.org''\<rparr>"

definition prototype2 :: settings where
  "prototype2 = \<lparr>SITE_HOSTNAME = ''treeherder-prototype2.herokuapp.com''\<rparr>"

definition cycler_365 :: DataCycler where
  "cycler_365 =
     \<lparr>cycler_cycle_interval = 31536000000000, cycler_chunk_size = 100, cycler_sleep_time = 0,
      cycler_is_debug = False\<rparr>"

definition cycler_400 :: DataCycler where
  "cycler_400 =
     \<lparr>cycler_cycle_interval = 34560000000000, cycler_chunk_size = 100, cycler_sleep_time = 0,
      cycler_is_debug = False\<rparr>"

definition clock_reading :: datetime where
  "clock_reading = 63000000000000000"

definition main_365 :: MainRemovalStrategy where
  "main_365 =
     \<lparr>main_cycle_interval = 31536000000000, main_chunk_size = 100,
      main_max_timestamp = 62968464000000000\<rparr>"

definition main_400 :: MainRemovalStrategy where
  "main_400 =
     \<lparr>main_cycle_interval = 34560000000000, main_chunk_size = 100,
      main_max_timestamp = 62965440000000000\<rparr>"

definition try_4_weeks :: TryDataRemoval where
  "try_4_weeks =
     \<lparr>try_cycle_interval = 2419200000000, try_chunk_size = 100,
      try_max_timestamp = 62997580800000007, try_repo_id = None\<rparr>"

definition cycler_chunk_2 :: DataCycler where
  "cycler_chunk_2 =
     \<lparr>cycler_cycle_interval = 120 * usec_per_day, cycler_chunk_size = 2, cycler_sleep_time = 0,
      cycler_is_debug = False\<rparr>"

definition jobs_world :: world where
  "jobs_world =
     world_of (empty_database\<lparr>
       job_tbl :=
         [\<lparr>job_id = 1, job_type_id = 1, job_group_id = 10, machine_id = 100\<rparr>,
          \<lparr>job_id = 2, job_type_id = 3, job_group_id = 10, machine_id = 101\<rparr>],
       job_type_tbl :=
         [\<lparr>anc_id = 1, anc_name = ''build''\<rparr>, \<lparr>anc_id = 2, anc_name = ''lint''\<rparr>,
          \<lparr>anc_id = 3, anc_name = ''test''\<rparr>, \<lparr>anc_id = 4, anc_name = ''docs''\<rparr>,
          \<lparr>anc_id = 5, anc_name = ''perf''\<rparr>, \<lparr>anc_id = 6, anc_name = ''fuzz''\<rparr>],
       job_group_tbl :=
         [\<lparr>anc_id = 10, anc_name = ''opt''\<rparr>, \<lparr>anc_id = 11, anc_name = ''debug''\<rparr>],
       machine_tbl :=
         [\<lparr>anc_id = 100, anc_name = ''w1''\<rparr>, \<lparr>anc_id = 101, anc_name = ''w2''\<rparr>]\<rparr>)"

text \<open>A bulk delete that loses its connection after it has removed the first job.\<close>

definition failing_cycle_data :: "timedelta \<Rightarrow> int \<Rightarrow> int \<Rightarrow> world \<Rightarrow> (error + int) \<times> world" where
  "failing_cycle_data cycle_interval chunk_size sleep_time w =
     (Inl (OperationalError ''MySQL server has gone away''),
      w\<lparr>db := (db w)\<lparr>job_tbl := tl (job_tbl (db w))\<rparr>\<rparr>)"

definition out_of_time :: "removal_strategy list \<Rightarrow> datetime \<Rightarrow> timedelta \<Rightarrow> world \<Rightarrow> (error + unit) \<times> world" where
  "out_of_time strategies started_at budget w =
     (Inl (MaxRuntimeExceeded ''Max runtime for performance data cycling exceeded''), w)"

definition lost_connection :: "removal_strategy list \<Rightarrow> datetime \<Rightarrow> timedelta \<Rightarrow> world \<Rightarrow> (error + unit) \<times> world" where
  "lost_connection strategies started_at budget w =
     (Inl (OperationalError ''MySQL server has gone away''), w)"

section \<open>Properties of the chunk sizer\<close>

lemma order_by_desc_Nil_iff: "order_by_desc key qs = [] \<longleftrightarrow> qs = []"
  by (metis length_0_conv length_rev length_sort order_by_desc_def)

lemma qs_index0_Inl_iff: "qs_index0 qs = Inl e \<longleftrightarrow> qs = [] \<and> e = IndexError"
  by (auto simp: qs_index0_def split: list.splits)

lemma qs_index0_desc_Inl:
  "qs_index0 (order_by_desc key qs) = Inl e \<longleftrightarrow> qs = [] \<and> e = IndexError"
  by (simp add: qs_index0_Inl_iff order_by_desc_Nil_iff)

lemma Main_find_IndexError_iff:
  "Main_find_ideal_chunk_size self d = Inl IndexError \<longleftrightarrow>
     (\<forall>r \<in> set (performance_datum_tbl d). push_timestamp r \<le> main_max_timestamp self)"
proof (cases "filter (\<lambda>r. push_timestamp r > main_max_timestamp self) (performance_datum_tbl d) = []")
  case True
  then have "qs_index0 (order_by_desc datum_id
      (filter (\<lambda>r. push_timestamp r > main_max_timestamp self) (performance_datum_tbl d))) = Inl IndexError"
    by (simp add: qs_index0_desc_Inl)
  then have "Main_find_ideal_chunk_size self d = Inl IndexError"
    by (simp add: Main_find_ideal_chunk_size_def)
  moreover have "\<forall>r \<in> set (performance_datum_tbl d). push_timestamp r \<le> main_max_timestamp self"
    using True by (auto simp: filter_empty_conv not_less)
  ultimately show ?thesis by simp
next
  case False
  then obtain newest where n: "qs_index0 (order_by_desc datum_id
      (filter (\<lambda>r. push_timestamp r > main_max_timestamp self) (performance_datum_tbl d))) = Inr newest"
    by (cases "qs_index0 (order_by_desc datum_id
      (filter (\<lambda>r. push_timestamp r > main_max_timestamp self) (performance_datum_tbl d)))")
       (auto simp: qs_index0_desc_Inl)
  have "Main_find_ideal_chunk_size self d \<noteq> Inl IndexError"
    by (simp add: Main_find_ideal_chunk_size_def n Let_def qs_slice_to_def)
  moreover have "\<not> (\<forall>r \<in> set (performance_datum_tbl d). push_timestamp r \<le> main_max_timestamp self)"
    using False by (auto simp: filter_empty_conv not_le)
  ultimately show ?thesis by simp
qed

lemma qs_index0_desc_Inr: "qs \<noteq> [] \<Longrightarrow> \<exists>x. qs_index0 (order_by_desc key qs) = Inr x"
  by (cases "qs_index0 (order_by_desc key qs)") (auto simp: qs_index0_desc_Inl)

lemma length_order_by: "length (order_by key qs) = length qs"
  by (simp add: order_by_def)

lemma fallback_bounds:
  fixes N :: int
  assumes "0 < N"
  shows "0 < (if int (length (take (nat N) xs)) \<noteq> 0 then int (length (take (nat N) xs)) else N)"
    and "(if int (length (take (nat N) xs)) \<noteq> 0 then int (length (take (nat N) xs)) else N) \<le> N"
  using assms by auto

lemma Main_find_bounds:
  assumes N: "0 < main_chunk_size m"
    and newer: "\<exists>r \<in> set (performance_datum_tbl d). main_max_timestamp m < push_timestamp r"
  shows "\<exists>n. Main_find_ideal_chunk_size m d = Inr n \<and> 0 < n \<and> n \<le> main_chunk_size m \<and>
           ((\<forall>r \<in> set (performance_datum_tbl d). \<not> push_timestamp r \<le> main_max_timestamp m) \<longrightarrow>
              n = main_chunk_size m)"
proof -
  from newer have "filter (\<lambda>r. push_timestamp r > main_max_timestamp m) (performance_datum_tbl d) \<noteq> []"
    by (auto simp: filter_empty_conv)
  then obtain newest where n: "qs_index0 (order_by_desc datum_id
      (filter (\<lambda>r. push_timestamp r > main_max_timestamp m) (performance_datum_tbl d))) = Inr newest"
    using qs_index0_desc_Inr by blast
  let ?older = "order_by datum_id
      (filter (\<lambda>r. push_timestamp r \<le> main_max_timestamp m \<and> datum_id r \<le> datum_id newest)
         (performance_datum_tbl d))"
  let ?n = "if int (length (take (nat (main_chunk_size m)) ?older)) \<noteq> 0
            then int (length (take (nat (main_chunk_size m)) ?older)) else main_chunk_size m"
  have eq: "Main_find_ideal_chunk_size m d = Inr ?n"
    using N by (simp add: Main_find_ideal_chunk_size_def n Let_def qs_slice_to_def)
  have "0 < ?n" "?n \<le> main_chunk_size m"
    using fallback_bounds [OF N] by blast+
  moreover have "?n = main_chunk_size m"
    if "\<forall>r \<in> set (performance_datum_tbl d). \<not> push_timestamp r \<le> main_max_timestamp m"
  proof -
    from that have "filter (\<lambda>r. push_timestamp r \<le> main_max_timestamp m \<and> datum_id r \<le> datum_id newest)
         (performance_datum_tbl d) = []"
      by (auto simp: filter_empty_conv)
    then show ?thesis by (simp add: order_by_def)
  qed
  ultimately show ?thesis using eq by blast
qed

lemma try_repo_cached:
  assumes "try_repo self d = Inr (i, self')"
  shows "try_repo self' d = Inr (i, self')"
    and "try_max_timestamp self' = try_max_timestamp self"
    and "try_chunk_size self' = try_chunk_size self"
    and "try_cycle_interval self' = try_cycle_interval self"
    and "try_repo_id self' = Some i"
  using assms by (auto simp: try_repo_def split: option.splits sum.splits)

lemma Try_find_bounds:
  assumes N: "0 < try_chunk_size t"
    and repo: "try_repo t d = Inr (repo, t')"
    and newer: "\<exists>r \<in> set (performance_datum_tbl d).
                  try_max_timestamp t < push_timestamp r \<and> repository_id r = repo"
  shows "\<exists>n. Try_find_ideal_chunk_size t d = (Inr n, t') \<and> 0 < n \<and> n \<le> try_chunk_size t \<and>
           ((\<forall>r \<in> set (performance_datum_tbl d).
                repository_id r = repo \<longrightarrow> \<not> push_timestamp r \<le> try_max_timestamp t) \<longrightarrow>
              n = try_chunk_size t)"
proof -
  note c = try_repo_cached [OF repo]
  from newer have "filter (\<lambda>r. push_timestamp r > try_max_timestamp t' \<and> repository_id r = repo)
       (performance_datum_tbl d) \<noteq> []"
    by (auto simp: filter_empty_conv c)
  then obtain newest where n: "qs_index0 (order_by_desc datum_id
      (filter (\<lambda>r. push_timestamp r > try_max_timestamp t' \<and> repository_id r = repo)
         (performance_datum_tbl d))) = Inr newest"
    using qs_index0_desc_Inr by blast
  let ?older = "order_by datum_id
      (filter (\<lambda>r. push_timestamp r \<le> try_max_timestamp t' \<and> datum_id r \<le> datum_id newest
                 \<and> repository_id r = repo)
         (performance_datum_tbl d))"
  let ?n = "if int (length (take (nat (try_chunk_size t)) ?older)) \<noteq> 0
            then int (length (take (nat (try_chunk_size t)) ?older)) else try_chunk_size t"
  have N': "0 < try_chunk_size t'" using N by (simp add: c)
  have eq: "Try_find_ideal_chunk_size t d = (Inr ?n, t')"
    using N' by (simp add: Try_find_ideal_chunk_size_def repo c(1) n Let_def qs_slice_to_def c(3))
  have "0 < ?n" "?n \<le> try_chunk_size t"
    using fallback_bounds [OF N] by blast+
  moreover have "?n = try_chunk_size t"
    if "\<forall>r \<in> set (performance_datum_tbl d).
          repository_id r = repo \<longrightarrow> \<not> push_timestamp r \<le> try_max_timestamp t"
  proof -
    from that have "filter (\<lambda>r. push_timestamp r \<le> try_max_timestamp t' \<and> datum_id r \<le> datum_id newest
                 \<and> repository_id r = repo) (performance_datum_tbl d) = []"
      by (auto simp: filter_empty_conv c)
    then show ?thesis by (simp add: order_by_def)
  qed
  ultimately show ?thesis using eq by blast
qed

lemma Main_find_le:
  assumes "Main_find_ideal_chunk_size m d = Inr n"
  shows "n \<le> main_chunk_size m"
  using assms
  by (auto simp: Main_find_ideal_chunk_size_def Let_def qs_slice_to_def
      split: sum.splits if_splits)

lemma Try_find_le:
  assumes "Try_find_ideal_chunk_size t d = (Inr n, t')"
  shows "n \<le> try_chunk_size t"
proof -
  have keep: "try_chunk_size s' = try_chunk_size s" if "try_repo s d = Inr (i, s')" for s i s'
    using try_repo_cached(3) [OF that] .
  from assms show ?thesis
    by (auto simp: Try_find_ideal_chunk_size_def Let_def qs_slice_to_def
        split: sum.splits prod.splits if_splits dest!: keep)
qed

text \<open>
  Where the boundary-id lookup succeeds the chunk sizer is within its bounds. Whatever
  the chunk size \<open>N\<close> and the table, a value that \<^verbatim>\<open>_find_ideal_chunk_size\<close> returns is at
  most \<open>N\<close>. With a positive \<open>N\<close> and a table in which some row (of the repository
  \<^verbatim>\<open>try\<close>, for the scoped strategy) is strictly newer than the cutoff, it does return, a
  value between 1 and \<open>N\<close>, and it returns \<open>N\<close> when no row (of that repository) is at or
  older than the cutoff.
\<close>

lemma find_ideal_chunk_size_bounds:
  "(\<forall>n. Main_find_ideal_chunk_size m d = Inr n \<longrightarrow> n \<le> main_chunk_size m) \<and>
   (\<forall>n s. Try_find_ideal_chunk_size t d = (Inr n, s) \<longrightarrow> n \<le> try_chunk_size t) \<and>
   (0 < main_chunk_size m \<and>
    (\<exists>r \<in> set (performance_datum_tbl d). main_max_timestamp m < push_timestamp r) \<longrightarrow>
      (\<exists>n. Main_find_ideal_chunk_size m d = Inr n \<and> 0 < n \<and> n \<le> main_chunk_size m \<and>
           ((\<forall>r \<in> set (performance_datum_tbl d). \<not> push_timestamp r \<le> main_max_timestamp m) \<longrightarrow>
              n = main_chunk_size m))) \<and>
   (0 < try_chunk_size t \<and> try_repo t d = Inr (repo, t') \<and>
    (\<exists>r \<in> set (performance_datum_tbl d).
        try_max_timestamp t < push_timestamp r \<and> repository_id r = repo) \<longrightarrow>
      (\<exists>n. Try_find_ideal_chunk_size t d = (Inr n, t') \<and> 0 < n \<and> n \<le> try_chunk_size t \<and>
           ((\<forall>r \<in> set (performance_datum_tbl d).
                repository_id r = repo \<longrightarrow> \<not> push_timestamp r \<le> try_max_timestamp t) \<longrightarrow>
              n = try_chunk_size t)))"
  using Main_find_bounds [of m d] Try_find_bounds [of t d repo t'] Main_find_le [of m d]
    Try_find_le [of t d]
  by blast

lemma find_ideal_chunk_size_bounds_at_fresh_table:
  "Main_find_ideal_chunk_size strategy_at_10 (db fresh_try_world) = Inr 100 \<and>
   Try_find_ideal_chunk_size try_strategy_at_10 (db fresh_try_world) =
     (Inr 100, try_strategy_at_10\<lparr>try_repo_id := Some 4\<rparr>)"
  using find_ideal_chunk_size_bounds
    [of strategy_at_10 "db fresh_try_world" try_strategy_at_10 4
        "try_strategy_at_10\<lparr>try_repo_id := Some 4\<rparr>"]
  by (simp add: fresh_try_world_def strategy_at_10_def try_strategy_at_10_def world_of_def
      empty_database_def try_repo_def qs_get_def)

text \<open>
  With a positive chunk size the unscoped chunk sizer has two outcomes only: a value
  between 1 and \<open>N\<close>, or the IndexError of the boundary-id lookup.
\<close>

lemma Main_find_positive_chunk:
  assumes "0 < main_chunk_size m"
  shows "Main_find_ideal_chunk_size m d = Inl IndexError \<or>
         (\<exists>n. Main_find_ideal_chunk_size m d = Inr n \<and> 0 < n \<and> n \<le> main_chunk_size m)"
proof (cases "\<forall>r \<in> set (performance_datum_tbl d). push_timestamp r \<le> main_max_timestamp m")
  case True
  then show ?thesis by (simp add: Main_find_IndexError_iff)
next
  case False
  then have "\<exists>r \<in> set (performance_datum_tbl d). main_max_timestamp m < push_timestamp r"
    by (auto simp: not_le)
  from Main_find_bounds [OF assms this] show ?thesis by blast
qed

text \<open>
  Claim C1, evaluated. The chunk sizer is to return a value of at most \<open>N\<close> on every
  table, and \<open>N\<close> itself when no row is at or older than the cutoff. On an empty table,
  and on a table whose rows are all at or older than the cutoff, the unscoped strategy
  with \<open>N = 100\<close> returns nothing: the boundary-id lookup \<^verbatim>\<open>[0]\<close> raises IndexError. The
  scoped strategy does the same when the repository \<^verbatim>\<open>try\<close> has no row.
\<close>

theorem find_ideal_chunk_size_raises_without_newer_row:
  "Main_find_ideal_chunk_size strategy_at_10 empty_database = Inl IndexError \<and>
   Main_find_ideal_chunk_size strategy_at_10 (db old_only_world) = Inl IndexError \<and>
   Try_find_ideal_chunk_size try_strategy_at_10 (db empty_try_world) =
     (Inl IndexError, try_strategy_at_10\<lparr>try_repo_id := Some 4\<rparr>)"
  by (simp add: Main_find_ideal_chunk_size_def Try_find_ideal_chunk_size_def try_repo_def
      qs_get_def strategy_at_10_def try_strategy_at_10_def empty_database_def old_only_world_def
      empty_try_world_def world_of_def qs_index0_def order_by_desc_def)

text \<open>
  Claim C2, evaluated. The repository \<^verbatim>\<open>try\<close> exists and has no row in
  \<^verbatim>\<open>performance_datum\<close>: \<^verbatim>\<open>remove\<close> of the scoped strategy raises IndexError on the
  boundary-id lookup, executes no statement and leaves the tables as they were.
\<close>

theorem try_remove_empty_scope_raises:
  "Try_remove try_strategy_at_10 empty_try_world =
     (Inl IndexError, try_strategy_at_10\<lparr>try_repo_id := Some 4\<rparr>, empty_try_world)"
  by (simp add: Try_remove_def Try_find_ideal_chunk_size_def try_repo_def qs_get_def
      try_strategy_at_10_def empty_try_world_def empty_database_def world_of_def qs_index0_def
      order_by_desc_def)

text \<open>
  Claim C9. When no row of \<^verbatim>\<open>performance_datum\<close> is strictly newer than the cutoff of the
  unscoped strategy, its chunk-size computation raises IndexError on the boundary-id
  lookup, and so does \<^verbatim>\<open>remove\<close>, leaving the world as it was, whatever rows at or older
  than the cutoff exist. A call of \<^verbatim>\<open>remove\<close> that returns normally had a row strictly
  newer than the cutoff in the table.
\<close>

theorem main_remove_needs_newer_row:
  "((\<forall>r \<in> set (performance_datum_tbl (db w)). push_timestamp r \<le> main_max_timestamp self) \<longrightarrow>
      Main_find_ideal_chunk_size self (db w) = Inl IndexError \<and>
      Main_remove self w = (Inl IndexError, w)) \<and>
   (fst (Main_remove self w) = Inr () \<longrightarrow>
      (\<exists>r \<in> set (performance_datum_tbl (db w)). main_max_timestamp self < push_timestamp r))"
proof (intro conjI impI)
  assume "\<forall>r \<in> set (performance_datum_tbl (db w)). push_timestamp r \<le> main_max_timestamp self"
  then show f: "Main_find_ideal_chunk_size self (db w) = Inl IndexError"
    by (simp add: Main_find_IndexError_iff)
  then show "Main_remove self w = (Inl IndexError, w)"
    by (simp add: Main_remove_def)
next
  assume ok: "fst (Main_remove self w) = Inr ()"
  have "Main_find_ideal_chunk_size self (db w) \<noteq> Inl IndexError"
    using ok by (auto simp: Main_remove_def)
  then show "\<exists>r \<in> set (performance_datum_tbl (db w)). main_max_timestamp self < push_timestamp r"
    by (auto simp: Main_find_IndexError_iff not_le)
qed

theorem main_remove_needs_newer_row_witness:
  "list_all (\<lambda>r. push_timestamp r \<le> main_max_timestamp strategy_at_10)
     (performance_datum_tbl (db old_only_world)) \<and>
   Main_find_ideal_chunk_size strategy_at_10 (db old_only_world) = Inl IndexError \<and>
   Main_remove strategy_at_10 old_only_world = (Inl IndexError, old_only_world)"
  using main_remove_needs_newer_row [of old_only_world strategy_at_10]
  by (simp add: old_only_world_def strategy_at_10_def world_of_def empty_database_def)

section \<open>Properties of the removal strategies\<close>

lemma delete_limit_split:
  "\<exists>ds. mset xs = mset (delete_limit P n xs) + mset ds \<and> (\<forall>x \<in> set ds. P x) \<and> length ds \<le> n"
proof (induction P n xs rule: delete_limit.induct)
  case (1 P xs)
  show ?case by (rule exI [of _ "[]"]) simp
next
  case (2 P n)
  show ?case by (rule exI [of _ "[]"]) simp
next
  case (3 P n x xs)
  show ?case
  proof (cases "P x")
    case True
    with 3 obtain ds where "mset xs = mset (delete_limit P n xs) + mset ds"
      "\<forall>x \<in> set ds. P x" "length ds \<le> n" by blast
    with True show ?thesis by (intro exI [of _ "x # ds"]) simp
  next
    case False
    with 3 obtain ds where "mset xs = mset (delete_limit P (Suc n) xs) + mset ds"
      "\<forall>x \<in> set ds. P x" "length ds \<le> Suc n" by blast
    with False show ?thesis by (intro exI [of _ ds]) simp
  qed
qed

lemma delete_limit_subset: "mset (delete_limit P n xs) \<subseteq># mset xs"
  using delete_limit_split [of xs P n] by (metis mset_subset_eq_add_left)

lemma delete_limit_deleted: "x \<in># mset xs - mset (delete_limit P n xs) \<Longrightarrow> P x"
proof -
  obtain ds where ds: "mset xs = mset (delete_limit P n xs) + mset ds" "\<forall>x \<in> set ds. P x"
    using delete_limit_split [of xs P n] by blast
  assume "x \<in># mset xs - mset (delete_limit P n xs)"
  then have "x \<in># mset ds" by (simp add: ds(1))
  then show "P x" using ds(2) by simp
qed

lemma only_deletes_refl: "only_deletes P w w"
  by (simp add: only_deletes_def deleted_rows_def)

lemma only_deletes_trans:
  assumes "only_deletes P w w'" "only_deletes P w' w''"
  shows "only_deletes P w w''"
proof -
  let ?A = "mset (performance_datum_tbl (db w))"
  let ?B = "mset (performance_datum_tbl (db w'))"
  let ?C = "mset (performance_datum_tbl (db w''))"
  have sub: "?B \<subseteq># ?A" "?C \<subseteq># ?B" using assms by (simp_all add: only_deletes_def)
  then have eq: "?A - ?C = (?A - ?B) + (?B - ?C)"
    by (metis add.commute subset_mset.add_diff_assoc2 subset_mset.diff_add)
  have "P x" if "x \<in># ?A - ?C" for x
  proof -
    from that have "x \<in># ?A - ?B \<or> x \<in># ?B - ?C"
      unfolding eq by simp
    then show ?thesis using assms by (auto simp: only_deletes_def deleted_rows_def)
  qed
  moreover have "?C \<subseteq># ?A" using sub by (rule subset_mset.order_trans [rotated])
  ultimately show ?thesis
    by (simp add: only_deletes_def deleted_rows_def)
qed

lemma execute_delete_only_deletes:
  "execute_delete repo ts limit w = (r, w') \<Longrightarrow>
     only_deletes (\<lambda>x. (case repo of None \<Rightarrow> True | Some i \<Rightarrow> repository_id x = i) \<and> push_timestamp x < ts) w w'"
  by (auto simp: execute_delete_def only_deletes_def deleted_rows_def delete_limit_subset
      dest: delete_limit_deleted split: if_splits)

lemma only_deletes_weaken: "only_deletes P w w' \<Longrightarrow> (\<And>x. P x \<Longrightarrow> Q x) \<Longrightarrow> only_deletes Q w w'"
  by (auto simp: only_deletes_def)

lemma Main_remove_only_deletes:
  "Main_remove m w = (r, w') \<Longrightarrow> only_deletes (\<lambda>x. push_timestamp x < main_max_timestamp m) w w'"
proof (cases "Main_find_ideal_chunk_size m (db w)")
  case (Inl e)
  assume "Main_remove m w = (r, w')"
  with Inl have "w' = w" by (simp add: Main_remove_def)
  then show ?thesis by (simp add: only_deletes_refl)
next
  case (Inr n)
  assume "Main_remove m w = (r, w')"
  with Inr have "execute_delete None (main_max_timestamp m) n w = (r, w')"
    by (simp add: Main_remove_def)
  from execute_delete_only_deletes [OF this] show ?thesis
    by (rule only_deletes_weaken) simp
qed

lemma Main_remove_n_only_deletes:
  "Main_remove_n k m w = (r, w') \<Longrightarrow> only_deletes (\<lambda>x. push_timestamp x < main_max_timestamp m) w w'"
proof (induction k arbitrary: w)
  case 0
  then show ?case by (simp add: only_deletes_refl)
next
  case (Suc k)
  obtain r1 w1 where one: "Main_remove m w = (r1, w1)" by (cases "Main_remove m w")
  note step = Main_remove_only_deletes [OF one]
  show ?case
  proof (cases r1)
    case (Inl e)
    with Suc.prems one have "w' = w1" by simp
    with step show ?thesis by simp
  next
    case (Inr u)
    with Suc.prems one have "Main_remove_n k m w1 = (r, w')" by simp
    from only_deletes_trans [OF step Suc.IH [OF this]] show ?thesis .
  qed
qed

lemma Try_find_keeps:
  assumes "Try_find_ideal_chunk_size t d = (r, t')"
  shows "try_max_timestamp t' = try_max_timestamp t \<and> try_chunk_size t' = try_chunk_size t \<and>
         try_cycle_interval t' = try_cycle_interval t"
  using assms
  by (auto simp: Try_find_ideal_chunk_size_def Let_def try_repo_def
      split: sum.splits prod.splits option.splits)

lemma try_repo_keeps:
  assumes "try_repo t d = Inr (i, t')"
  shows "try_max_timestamp t' = try_max_timestamp t \<and> try_chunk_size t' = try_chunk_size t \<and>
         try_cycle_interval t' = try_cycle_interval t"
  using assms by (auto simp: try_repo_def split: sum.splits option.splits)

lemma Try_remove_step:
  assumes "Try_remove t w = (r, t', w')"
  shows "try_max_timestamp t' = try_max_timestamp t \<and>
         only_deletes (\<lambda>x. push_timestamp x < try_max_timestamp t) w w'"
proof (cases "Try_find_ideal_chunk_size t (db w)")
  case (Pair rf t1)
  note k1 = Try_find_keeps [OF Pair]
  show ?thesis
  proof (cases rf)
    case (Inl e)
    with Pair assms have "t' = t1" "w' = w" by (simp_all add: Try_remove_def)
    with k1 show ?thesis by (simp add: only_deletes_refl)
  next
    case (Inr n)
    show ?thesis
    proof (cases "try_repo t1 (db w)")
      case (Inl e)
      with Pair Inr assms have "t' = t1" "w' = w" by (simp_all add: Try_remove_def)
      with k1 show ?thesis by (simp add: only_deletes_refl)
    next
      case Inr2: (Inr p)
      obtain i t2 where p: "p = (i, t2)" by (cases p)
      note k2 = try_repo_keeps [OF Inr2 [unfolded p]]
      from Pair Inr Inr2 p assms
      have "t' = t2" and ex: "execute_delete (Some i) (try_max_timestamp t2) n w = (r, w')"
        by (auto simp: Try_remove_def split: prod.splits)
      from execute_delete_only_deletes [OF ex]
      have "only_deletes (\<lambda>x. push_timestamp x < try_max_timestamp t) w w'"
        by (rule only_deletes_weaken) (simp add: k1 k2)
      with \<open>t' = t2\<close> k1 k2 show ?thesis by simp
    qed
  qed
qed

lemma Try_remove_n_steps:
  "Try_remove_n k t w = (r, t', w') \<Longrightarrow>
     try_max_timestamp t' = try_max_timestamp t \<and>
     only_deletes (\<lambda>x. push_timestamp x < try_max_timestamp t) w w'"
proof (induction k arbitrary: t w)
  case 0
  then show ?case by (simp add: only_deletes_refl)
next
  case (Suc k)
  obtain r1 t1 w1 where one: "Try_remove t w = (r1, t1, w1)" by (cases "Try_remove t w") auto
  note step = Try_remove_step [OF one]
  show ?case
  proof (cases r1)
    case (Inl e)
    with Suc.prems one have "t' = t1" "w' = w1" by simp_all
    with step show ?thesis by simp
  next
    case (Inr u)
    with Suc.prems one have rest: "Try_remove_n k t1 w1 = (r, t', w')" by simp
    from Suc.IH [OF rest] step only_deletes_trans [of _ w w1 w']
    show ?thesis by simp
  qed
qed

lemma MainRemovalStrategy_init_Inr:
  "MainRemovalStrategy_init now interval chunk = Inr m \<Longrightarrow>
     main_max_timestamp m = now - interval \<and> main_cycle_interval m = interval \<and>
     main_chunk_size m = chunk"
  by (auto simp: MainRemovalStrategy_init_def datetime_sub_def Let_def split: sum.splits if_splits)

lemma TryDataRemoval_init_Inr:
  "TryDataRemoval_init now chunk = Inr t \<Longrightarrow>
     try_max_timestamp t = now - try_cycle_interval t \<and>
     try_cycle_interval t = 4 * 7 * usec_per_day \<and> try_chunk_size t = chunk \<and>
     try_repo_id t = None"
  by (auto simp: TryDataRemoval_init_def timedelta_weeks_def timedelta_days_def datetime_sub_def
      Let_def split: sum.splits if_splits)

text \<open>
  Claim C3. A strategy that was constructed at time \<open>now\<close> has the cutoff \<open>now\<close> minus its
  cutoff interval. \<^verbatim>\<open>remove\<close> does not read the clock and assigns no field but the cached
  repository id, so after any number \<open>k\<close> of calls the cutoff is the one of construction;
  the calls only delete rows, and every row they deleted has a push timestamp strictly
  before that cutoff.
\<close>

theorem cutoff_fixed_and_respected:
  "(MainRemovalStrategy_init now interval chunk = Inr m \<longrightarrow>
      main_max_timestamp m = now - interval \<and>
      mset (performance_datum_tbl (db (snd (Main_remove_n k m w))))
        \<subseteq># mset (performance_datum_tbl (db w)) \<and>
      (\<forall>x \<in># deleted_rows w (snd (Main_remove_n k m w)). push_timestamp x < now - interval)) \<and>
   (TryDataRemoval_init now chunk = Inr t \<longrightarrow>
      try_max_timestamp t = now - try_cycle_interval t \<and>
      try_max_timestamp (fst (snd (Try_remove_n k t w))) = now - try_cycle_interval t \<and>
      mset (performance_datum_tbl (db (snd (snd (Try_remove_n k t w)))))
        \<subseteq># mset (performance_datum_tbl (db w)) \<and>
      (\<forall>x \<in># deleted_rows w (snd (snd (Try_remove_n k t w))).
          push_timestamp x < now - try_cycle_interval t))"
proof (intro conjI impI)
  assume i: "MainRemovalStrategy_init now interval chunk = Inr m"
  then show c: "main_max_timestamp m = now - interval"
    by (simp add: MainRemovalStrategy_init_Inr)
  have "only_deletes (\<lambda>x. push_timestamp x < main_max_timestamp m) w (snd (Main_remove_n k m w))"
    by (rule Main_remove_n_only_deletes [of k m w "fst (Main_remove_n k m w)"]) simp
  then show "mset (performance_datum_tbl (db (snd (Main_remove_n k m w))))
        \<subseteq># mset (performance_datum_tbl (db w))"
    and "\<forall>x \<in># deleted_rows w (snd (Main_remove_n k m w)). push_timestamp x < now - interval"
    by (simp_all add: only_deletes_def c)
next
  assume i: "TryDataRemoval_init now chunk = Inr t"
  then show c: "try_max_timestamp t = now - try_cycle_interval t"
    by (simp add: TryDataRemoval_init_Inr)
  have s: "try_max_timestamp (fst (snd (Try_remove_n k t w))) = try_max_timestamp t \<and>
     only_deletes (\<lambda>x. push_timestamp x < try_max_timestamp t) w (snd (snd (Try_remove_n k t w)))"
    by (rule Try_remove_n_steps [of k t w "fst (Try_remove_n k t w)"]) simp
  then show "try_max_timestamp (fst (snd (Try_remove_n k t w))) = now - try_cycle_interval t"
    by (simp add: c)
  from s show "mset (performance_datum_tbl (db (snd (snd (Try_remove_n k t w)))))
        \<subseteq># mset (performance_datum_tbl (db w))"
    and "\<forall>x \<in># deleted_rows w (snd (snd (Try_remove_n k t w))).
          push_timestamp x < now - try_cycle_interval t"
    by (simp_all add: only_deletes_def c)
qed

lemma built_main: "MainRemovalStrategy_init 2419200000010 2419200000000 100 = Inr main_built_at_100"
  by (simp add: MainRemovalStrategy_init_def datetime_sub_def usec_per_day_def main_built_at_100_def)

lemma built_try: "TryDataRemoval_init 2419200000010 100 = Inr try_built_late"
  by (simp add: TryDataRemoval_init_def timedelta_weeks_def timedelta_days_def datetime_sub_def
      usec_per_day_def try_built_late_def)

lemma two_main_removes:
  "performance_datum_tbl (db (snd (Main_remove_n 2 main_built_at_100 mixed_world))) =
     [\<lparr>datum_id = 3, repository_id = 4, push_timestamp = 50\<rparr>,
      \<lparr>datum_id = 4, repository_id = 1, push_timestamp = 60\<rparr>]"
  by code_simp

lemma two_try_removes:
  "performance_datum_tbl (db (snd (snd (Try_remove_n 2 try_built_late mixed_world)))) =
     [\<lparr>datum_id = 1, repository_id = 1, push_timestamp = 5\<rparr>,
      \<lparr>datum_id = 3, repository_id = 4, push_timestamp = 50\<rparr>,
      \<lparr>datum_id = 4, repository_id = 1, push_timestamp = 60\<rparr>]"
  by code_simp

theorem cutoff_fixed_and_respected_witness:
  "MainRemovalStrategy_init 2419200000010 2419200000000 100 = Inr main_built_at_100 \<and>
   main_max_timestamp main_built_at_100 = 2419200000010 - 2419200000000 \<and>
   TryDataRemoval_init 2419200000010 100 = Inr try_built_late \<and>
   try_max_timestamp (fst (snd (Try_remove_n 2 try_built_late mixed_world))) =
     2419200000010 - try_cycle_interval try_built_late \<and>
   mset (performance_datum_tbl (db (snd (Main_remove_n 2 main_built_at_100 mixed_world))))
     \<subseteq># mset (performance_datum_tbl (db mixed_world)) \<and>
   performance_datum_tbl (db (snd (Main_remove_n 2 main_built_at_100 mixed_world))) =
     [\<lparr>datum_id = 3, repository_id = 4, push_timestamp = 50\<rparr>,
      \<lparr>datum_id = 4, repository_id = 1, push_timestamp = 60\<rparr>] \<and>
   performance_datum_tbl (db (snd (snd (Try_remove_n 2 try_built_late mixed_world)))) =
     [\<lparr>datum_id = 1, repository_id = 1, push_timestamp = 5\<rparr>,
      \<lparr>datum_id = 3, repository_id = 4, push_timestamp = 50\<rparr>,
      \<lparr>datum_id = 4, repository_id = 1, push_timestamp = 60\<rparr>]"
  using cutoff_fixed_and_respected
    [of 2419200000010 2419200000000 100 main_built_at_100 2 mixed_world try_built_late]
    built_main built_try two_main_removes two_try_removes
  by simp

section \<open>Properties of the performance-data cycler\<close>

text \<open>
  Claim C4, as the code has it. For a number of days that \<^verbatim>\<open>datetime.timedelta\<close> can hold
  (at most 999999999 in magnitude), constructing the cycler raises the ValueError of the
  365-day floor when the days are below 365 and the host is not the prototype host, and
  succeeds otherwise. The constructor takes no store: nothing is deleted before it
  returns or raises.
\<close>

theorem perfherder_floor:
  "\<bar>days\<bar> \<le> 999999999 \<longrightarrow>
     (days < 365 \<and> SITE_HOSTNAME conf \<noteq> ''treeherder-prototype2.herokuapp.com'' \<longrightarrow>
        PerfherderCycler_init conf days chunk sleep dbg =
          Inl (ValueError ''Cannot remove performance data that is more recent than 365 days'')) \<and>
     (365 \<le> days \<or> SITE_HOSTNAME conf = ''treeherder-prototype2.herokuapp.com'' \<longrightarrow>
        (\<exists>self. PerfherderCycler_init conf days chunk sleep dbg = Inr self \<and>
                cycler_cycle_interval self = days * usec_per_day \<and>
                cycler_chunk_size self = chunk))"
  by (auto simp: PerfherderCycler_init_def DataCycler_init_def timedelta_days_def
      MINIMUM_PERFHERDER_EXPIRE_INTERVAL_def)

theorem perfherder_floor_witness:
  "PerfherderCycler_init production 30 100 0 None =
     Inl (ValueError ''Cannot remove performance data that is more recent than 365 days'') \<and>
   (\<exists>self. PerfherderCycler_init production 365 100 0 None = Inr self) \<and>
   (\<exists>self. PerfherderCycler_init prototype2 30 100 0 None = Inr self)"
  using perfherder_floor [of 30 production 100 0 None]
    perfherder_floor [of 365 production 100 0 None]
    perfherder_floor [of 30 prototype2 100 0 None]
  by (auto simp: production_def prototype2_def)

text \<open>
  The claim as the specification words it fails for a number of days beyond the range of
  \<^verbatim>\<open>datetime.timedelta\<close>: the interval is above the floor and construction raises
  OverflowError.
\<close>

theorem perfherder_floor_counterexample:
  "PerfherderCycler_init production 1000000000 100 0 None = Inl OverflowError"
  by (simp add: PerfherderCycler_init_def DataCycler_init_def timedelta_days_def)

lemma removal_strategies_Inr:
  assumes "removal_strategies self now_main now_try = Inr ss"
  shows "\<exists>m t. ss = [Main m, Try t] \<and>
           MainRemovalStrategy_init now_main (cycler_cycle_interval self) (cycler_chunk_size self) = Inr m \<and>
           TryDataRemoval_init now_try (cycler_chunk_size self) = Inr t"
  using assms by (auto simp: removal_strategies_def split: sum.splits)

lemma PerfherderCycler_init_Inr:
  "PerfherderCycler_init conf days chunk sleep dbg = Inr self \<Longrightarrow>
     cycler_chunk_size self = chunk \<and> cycler_cycle_interval self = days * usec_per_day"
  by (auto simp: PerfherderCycler_init_def DataCycler_init_def timedelta_days_def
      split: sum.splits if_splits)

text \<open>
  Claim C10. Whatever the configured days, the scoped strategy that
  \<^verbatim>\<open>PerfherderCycler.cycle\<close> builds is \<^verbatim>\<open>TryDataRemoval(chunk_size)\<close>: its cutoff is its
  construction time minus 4 weeks, and two cyclers that differ in their days only build
  the same scoped strategy, which \<^verbatim>\<open>remove\<close> then acts from.
\<close>

theorem try_cutoff_ignores_days:
  assumes "PerfherderCycler_init conf days chunk sleep dbg = Inr self"
    and "PerfherderCycler_init conf days' chunk sleep dbg = Inr self'"
    and "removal_strategies self now_main now_try = Inr ss"
    and "removal_strategies self' now_main' now_try = Inr ss'"
  shows "\<exists>m m' t. ss = [Main m, Try t] \<and> ss' = [Main m', Try t] \<and>
           TryDataRemoval_init now_try chunk = Inr t \<and>
           try_cycle_interval t = 4 * 7 * usec_per_day \<and>
           try_max_timestamp t = now_try - 4 * 7 * usec_per_day"
proof -
  from removal_strategies_Inr [OF assms(3)] PerfherderCycler_init_Inr [OF assms(1)]
  obtain m t where 1: "ss = [Main m, Try t]" "TryDataRemoval_init now_try chunk = Inr t"
    by auto
  from removal_strategies_Inr [OF assms(4)] PerfherderCycler_init_Inr [OF assms(2)]
  obtain m' t' where 2: "ss' = [Main m', Try t']" "TryDataRemoval_init now_try chunk = Inr t'"
    by auto
  from 1(2) 2(2) have "t' = t" by simp
  with 1 2 TryDataRemoval_init_Inr [OF 1(2)] show ?thesis by auto
qed

lemma strategies_365:
  "removal_strategies cycler_365 clock_reading (clock_reading + 7) = Inr [Main main_365, Try try_4_weeks]"
  by (simp add: removal_strategies_def MainRemovalStrategy_init_def TryDataRemoval_init_def
      timedelta_weeks_def timedelta_days_def datetime_sub_def usec_per_day_def cycler_365_def
      clock_reading_def main_365_def try_4_weeks_def)

lemma strategies_400:
  "removal_strategies cycler_400 clock_reading (clock_reading + 7) = Inr [Main main_400, Try try_4_weeks]"
  by (simp add: removal_strategies_def MainRemovalStrategy_init_def TryDataRemoval_init_def
      timedelta_weeks_def timedelta_days_def datetime_sub_def usec_per_day_def cycler_400_def
      clock_reading_def main_400_def try_4_weeks_def)

lemma init_365: "PerfherderCycler_init production 365 100 0 None = Inr cycler_365"
  by (simp add: PerfherderCycler_init_def DataCycler_init_def timedelta_days_def usec_per_day_def
      MINIMUM_PERFHERDER_EXPIRE_INTERVAL_def cycler_365_def)

lemma init_400: "PerfherderCycler_init production 400 100 0 None = Inr cycler_400"
  by (simp add: PerfherderCycler_init_def DataCycler_init_def timedelta_days_def usec_per_day_def
      MINIMUM_PERFHERDER_EXPIRE_INTERVAL_def cycler_400_def)

theorem try_cutoff_ignores_days_witness:
  "PerfherderCycler_init production 365 100 0 None = Inr cycler_365 \<and>
   PerfherderCycler_init production 400 100 0 None = Inr cycler_400 \<and>
   removal_strategies cycler_365 clock_reading (clock_reading + 7) =
     Inr [Main main_365, Try try_4_weeks] \<and>
   removal_strategies cycler_400 clock_reading (clock_reading + 7) =
     Inr [Main main_400, Try try_4_weeks] \<and>
   try_max_timestamp try_4_weeks = clock_reading + 7 - 4 * 7 * usec_per_day"
  using try_cutoff_ignores_days [OF init_365 init_400 strategies_365 strategies_400]
    init_365 init_400 strategies_365 strategies_400
  by simp

section \<open>Properties of the pruning of ancillary tables\<close>

lemma objects_set_objects:
  "objects m' (set_objects m rows d) = (if m' = m then rows else objects m' d)"
  by (cases m; cases m') (simp_all add: objects_def set_objects_def)

lemma job_tbl_set_objects: "job_tbl (set_objects m rows d) = job_tbl d"
  by (cases m) (simp_all add: set_objects_def)

lemma delete_id_in_simps:
  "objects m' (db (delete_id_in m ids w)) =
     (if m' = m then filter (\<lambda>r. anc_id r \<notin> set ids) (objects m (db w)) else objects m' (db w))"
  "job_tbl (db (delete_id_in m ids w)) = job_tbl (db w)"
  "executed (delete_id_in m ids w) = executed w @ [Delete_id_in m ids]"
  "logged (delete_id_in m ids w) = logged w"
  by (simp_all add: delete_id_in_def objects_set_objects job_tbl_set_objects)

lemma logger_warning_simps:
  "db (logger_warning msg w) = db w"
  "executed (logger_warning msg w) = executed w"
  "logged (logger_warning msg w) = logged w @ [(WARNING, msg)]"
  by (simp_all add: logger_warning_def)

lemma logger_error_simps:
  "db (logger_error msg w) = db w"
  "executed (logger_error msg w) = executed w"
  "logged (logger_error msg w) = logged w @ [(ERROR, msg)]"
  by (simp_all add: logger_error_def)

text \<open>What a finished run of the loop has done, whatever the chunk size.\<close>

lemma prune_loop_result:
  assumes "prune_loop self m unused_ids w = Some y"
  shows "(fst y = Inr () \<or> fst y = Inl NegativeIndexing) \<and>
         (fst y = Inr () \<longrightarrow>
            objects m (db (snd y)) = filter (\<lambda>r. anc_id r \<notin> set unused_ids) (objects m (db w))) \<and>
         (\<forall>m'. m' \<noteq> m \<longrightarrow> objects m' (db (snd y)) = objects m' (db w)) \<and>
         job_tbl (db (snd y)) = job_tbl (db w)"
proof (rule prune_loop.raw_induct
    [where P = "\<lambda>self m unused_ids w y.
       (fst y = Inr () \<or> fst y = Inl NegativeIndexing) \<and>
       (fst y = Inr () \<longrightarrow>
          objects m (db (snd y)) = filter (\<lambda>r. anc_id r \<notin> set unused_ids) (objects m (db w))) \<and>
       (\<forall>m'. m' \<noteq> m \<longrightarrow> objects m' (db (snd y)) = objects m' (db w)) \<and>
       job_tbl (db (snd y)) = job_tbl (db w)", OF _ assms], goal_cases)
  case (1 loop self m unused_ids w y)
  show ?case
  proof (cases "length unused_ids = 0")
    case True
    with 1(2) show ?thesis by auto
  next
    case False
    show ?thesis
    proof (cases "cycler_chunk_size self < 0")
      case True
      with False 1(2) show ?thesis by (auto simp: qs_slice_to_def)
    next
      case nonneg: False
      let ?c = "nat (cycler_chunk_size self)"
      let ?w = "delete_id_in m (take ?c unused_ids)
                  (logger_warning
                     (Format ''deleting {} of {}''
                        [ArgInt (int (length (take ?c unused_ids))), ArgInt (int (length unused_ids))])
                     w)"
      from False nonneg 1(2) have "loop self m (drop ?c unused_ids) ?w = Some y"
        by (simp add: qs_slice_to_def)
      from 1(1) [OF this]
      have ih: "fst y = Inr () \<or> fst y = Inl NegativeIndexing"
        "fst y = Inr () \<longrightarrow>
            objects m (db (snd y)) = filter (\<lambda>r. anc_id r \<notin> set (drop ?c unused_ids)) (objects m (db ?w))"
        "\<forall>m'. m' \<noteq> m \<longrightarrow> objects m' (db (snd y)) = objects m' (db ?w)"
        "job_tbl (db (snd y)) = job_tbl (db ?w)"
        by blast+
      have "set unused_ids = set (take ?c unused_ids) \<union> set (drop ?c unused_ids)"
        by (metis append_take_drop_id set_append)
      then have "filter (\<lambda>r. anc_id r \<notin> set (drop ?c unused_ids))
                   (filter (\<lambda>r. anc_id r \<notin> set (take ?c unused_ids)) (objects m (db w)))
                 = filter (\<lambda>r. anc_id r \<notin> set unused_ids) (objects m (db w))"
        by (auto intro: filter_cong)
      with ih show ?thesis
        by (simp add: delete_id_in_simps logger_warning_simps)
    qed
  qed
qed

lemma ceil_div_step:
  fixes n c :: nat
  assumes "0 < n" "0 < c"
  shows "(n + c - 1) div c = Suc ((n - c + c - 1) div c)"
proof (cases "c \<le> n")
  case True
  then have e1: "n + c - 1 = (n - 1) + c" and e2: "n - c + c - 1 = n - 1"
    using assms by simp_all
  have "((n - 1) + c) div c = Suc ((n - 1) div c)"
    using div_add_self2 [of c "n - 1"] assms(2) by simp
  then show ?thesis by (simp only: e1 e2)
next
  case False
  then have e1: "n + c - 1 = c + (n - 1)" and e2: "n - c + c - 1 = c - 1" and lt: "n - 1 < c"
    using assms by simp_all
  have "(c + (n - 1)) div c = Suc 0"
    using div_add_self1 [of c "n - 1"] assms(2) lt by simp
  moreover have "(c - 1) div c = 0"
    using assms(2) by simp
  ultimately show ?thesis by (simp only: e1 e2)
qed

lemma once_in_chunks:
  "distinct (concat css) \<Longrightarrow> i \<in> set (concat css) \<Longrightarrow> length (filter (\<lambda>cs. i \<in> set cs) css) = 1"
proof (induction css)
  case Nil
  then show ?case by simp
next
  case (Cons cs css)
  show ?case
  proof (cases "i \<in> set cs")
    case True
    with Cons.prems have "\<forall>ds \<in> set css. i \<notin> set ds" by auto
    then have "filter (\<lambda>cs. i \<in> set cs) css = []" by (simp add: filter_empty_conv)
    with True show ?thesis by simp
  next
    case False
    with Cons show ?thesis by auto
  qed
qed

text \<open>With a positive chunk size the loop ends, and this is what it has executed.\<close>

lemma prune_loop_terminates:
  assumes c: "0 < cycler_chunk_size self"
  shows "\<exists>w' css.
           prune_loop self m unused_ids w = Some (Inr (), w') \<and>
           executed w' = executed w @ map (Delete_id_in m) css \<and>
           length css = (length unused_ids + nat (cycler_chunk_size self) - 1)
                          div nat (cycler_chunk_size self) \<and>
           (\<forall>cs \<in> set css. cs \<noteq> [] \<and> length cs \<le> nat (cycler_chunk_size self)) \<and>
           concat css = unused_ids \<and>
           (\<exists>l. logged w' = logged w @ l)"
proof (induction "length unused_ids" arbitrary: unused_ids w rule: less_induct)
  case less
  let ?c = "nat (cycler_chunk_size self)"
  have cpos: "0 < ?c" using c by simp
  show ?case
  proof (cases "unused_ids = []")
    case True
    then have "prune_loop self m unused_ids w = Some (Inr (), w)"
      by (subst prune_loop.simps) simp
    moreover have "(length unused_ids + ?c - 1) div ?c = 0" using True cpos by simp
    ultimately show ?thesis using True
      by (intro exI [of _ w] exI [of _ "[]"]) simp
  next
    case False
    let ?w = "delete_id_in m (take ?c unused_ids)
                (logger_warning
                   (Format ''deleting {} of {}''
                      [ArgInt (int (length (take ?c unused_ids))), ArgInt (int (length unused_ids))])
                   w)"
    have step: "prune_loop self m unused_ids w = prune_loop self m (drop ?c unused_ids) ?w"
      using False c by (subst prune_loop.simps) (simp add: qs_slice_to_def)
    have "length (drop ?c unused_ids) < length unused_ids" using False cpos by simp
    from less [OF this, of ?w] obtain w' css where ih:
      "prune_loop self m (drop ?c unused_ids) ?w = Some (Inr (), w')"
      "executed w' = executed ?w @ map (Delete_id_in m) css"
      "length css = (length (drop ?c unused_ids) + ?c - 1) div ?c"
      "\<forall>cs \<in> set css. cs \<noteq> [] \<and> length cs \<le> ?c"
      "concat css = drop ?c unused_ids"
      "\<exists>l. logged w' = logged ?w @ l"
      by blast
    let ?css = "take ?c unused_ids # css"
    have "executed w' = executed w @ map (Delete_id_in m) ?css"
      using ih(2) by (simp add: delete_id_in_simps logger_warning_simps)
    moreover have "length ?css = (length unused_ids + ?c - 1) div ?c"
      using ih(3) ceil_div_step [of "length unused_ids" ?c] False cpos by simp
    moreover have "\<forall>cs \<in> set ?css. cs \<noteq> [] \<and> length cs \<le> ?c"
      using ih(4) False cpos by auto
    moreover have "concat ?css = unused_ids" using ih(5) by simp
    moreover have "\<exists>l. logged w' = logged w @ l"
      using ih(6) by (auto simp: delete_id_in_simps logger_warning_simps)
    ultimately show ?thesis using step ih(1) by (intro exI [of _ w'] exI [of _ ?css]) simp
  qed
qed

lemma ceiling_as_div:
  fixes n c :: nat
  assumes "0 < c"
  shows "\<lceil>real n / real c\<rceil> = int ((n + c - 1) div c)"
proof -
  define q where "q = (n + c - 1) div c"
  have a: "q * c \<le> n + c - 1"
    unfolding q_def by (rule div_times_less_eq_dividend)
  have b: "n + c - 1 < c + q * c"
    unfolding q_def using assms by (rule dividend_less_div_times)
  from a assms have lo: "q * c < n + c" by linarith
  from b assms have hi: "n \<le> q * c" by linarith
  have "real (q * c) < real (n + c)" using lo by (rule of_nat_less_iff [THEN iffD2])
  then have "(real q - 1) * real c < real n" by (simp add: algebra_simps)
  then have 1: "real_of_int (int q) - 1 < real n / real c"
    using assms by (simp add: pos_less_divide_eq)
  have "real n \<le> real (q * c)" using hi by (rule of_nat_le_iff [THEN iffD2])
  then have 2: "real n / real c \<le> real_of_int (int q)"
    using assms by (simp add: pos_divide_le_eq)
  from 1 2 show ?thesis unfolding q_def [symmetric] by (rule ceiling_unique)
qed

text \<open>
  Claim C8. With a positive chunk size \<open>c\<close> the loop of \<^verbatim>\<open>prune\<close> over a list of \<open>n\<close>
  unused ids ends normally. It has then executed one delete statement per chunk: there
  are \<open>\<lceil>n / c\<rceil>\<close> of them, that is \<open>(n + c - 1) div c\<close>, none covers more than \<open>c\<close> ids,
  put end to end they are the list of unused ids, and when the ids are distinct (they are
  primary keys) each id is in exactly one statement.
\<close>

theorem prune_loop_chunks:
  assumes "0 < cycler_chunk_size self"
  shows "\<exists>w' css.
           prune_loop self m unused_ids w = Some (Inr (), w') \<and>
           executed w' = executed w @ map (Delete_id_in m) css \<and>
           int (length css) = \<lceil>real (length unused_ids) / real_of_int (cycler_chunk_size self)\<rceil> \<and>
           length css = (length unused_ids + nat (cycler_chunk_size self) - 1)
                          div nat (cycler_chunk_size self) \<and>
           (\<forall>cs \<in> set css. length cs \<le> nat (cycler_chunk_size self)) \<and>
           concat css = unused_ids \<and>
           (distinct unused_ids \<longrightarrow>
              (\<forall>i \<in> set unused_ids. length (filter (\<lambda>cs. i \<in> set cs) css) = 1))"
proof -
  from prune_loop_terminates [OF assms, of m unused_ids w] obtain w' css where r:
    "prune_loop self m unused_ids w = Some (Inr (), w')"
    "executed w' = executed w @ map (Delete_id_in m) css"
    "length css = (length unused_ids + nat (cycler_chunk_size self) - 1)
                    div nat (cycler_chunk_size self)"
    "\<forall>cs \<in> set css. cs \<noteq> [] \<and> length cs \<le> nat (cycler_chunk_size self)"
    "concat css = unused_ids"
    by blast
  have "\<forall>i \<in> set unused_ids. length (filter (\<lambda>cs. i \<in> set cs) css) = 1" if "distinct unused_ids"
    using that r(5) once_in_chunks [of css] by blast
  moreover have "int (length css) = \<lceil>real (length unused_ids) / real_of_int (cycler_chunk_size self)\<rceil>"
  proof -
    have "real (nat (cycler_chunk_size self)) = real_of_int (cycler_chunk_size self)"
      using assms by simp
    with ceiling_as_div [of "nat (cycler_chunk_size self)" "length unused_ids"] assms r(3)
    show ?thesis by simp
  qed
  ultimately show ?thesis using r by blast
qed

lemma five_ids_in_twos:
  "map_option (\<lambda>y. (fst y, executed (snd y)))
     (prune_loop cycler_chunk_2 JobType [2, 4, 5, 6, 7] jobs_world) =
   Some (Inr (), [Delete_id_in JobType [2, 4], Delete_id_in JobType [5, 6], Delete_id_in JobType [7]])"
  by code_simp

theorem prune_loop_chunks_witness:
  "0 < cycler_chunk_size cycler_chunk_2 \<and>
   (\<exists>w' css.
      prune_loop cycler_chunk_2 JobType [2, 4, 5, 6, 7] jobs_world = Some (Inr (), w') \<and>
      executed w' = executed jobs_world @ map (Delete_id_in JobType) css \<and>
      length css = 3 \<and> concat css = [2, 4, 5, 6, 7]) \<and>
   map_option (\<lambda>y. (fst y, executed (snd y)))
     (prune_loop cycler_chunk_2 JobType [2, 4, 5, 6, 7] jobs_world) =
   Some (Inr (), [Delete_id_in JobType [2, 4], Delete_id_in JobType [5, 6], Delete_id_in JobType [7]])"
proof -
  have c: "0 < cycler_chunk_size cycler_chunk_2" by (simp add: cycler_chunk_2_def)
  from prune_loop_chunks [OF c, of JobType "[2, 4, 5, 6, 7]" jobs_world]
  obtain w' css where
    "prune_loop cycler_chunk_2 JobType [2, 4, 5, 6, 7] jobs_world = Some (Inr (), w')"
    "executed w' = executed jobs_world @ map (Delete_id_in JobType) css"
    "length css = (length [2, 4, 5, 6, 7 :: int] + nat (cycler_chunk_size cycler_chunk_2) - 1)
                    div nat (cycler_chunk_size cycler_chunk_2)"
    "concat css = [2, 4, 5, 6, 7]"
    by blast
  moreover have "(length [2, 4, 5, 6, 7 :: int] + nat (cycler_chunk_size cycler_chunk_2) - 1)
                    div nat (cycler_chunk_size cycler_chunk_2) = 3"
    by (simp add: cycler_chunk_2_def)
  ultimately have "\<exists>w' css.
      prune_loop cycler_chunk_2 JobType [2, 4, 5, 6, 7] jobs_world = Some (Inr (), w') \<and>
      executed w' = executed jobs_world @ map (Delete_id_in JobType) css \<and>
      length css = 3 \<and> concat css = [2, 4, 5, 6, 7]"
    by (intro exI [of _ w'] exI [of _ css]) simp
  with c five_ids_in_twos show ?thesis by blast
qed

lemma prune_result:
  assumes "prune self id_name m w = Some (Inr (), w')"
  shows "objects m (db w') =
           filter (\<lambda>r. anc_id r \<in> id_name ` set (job_tbl (db w))) (objects m (db w))"
    and "\<forall>m'. m' \<noteq> m \<longrightarrow> objects m' (db w') = objects m' (db w)"
    and "job_tbl (db w') = job_tbl (db w)"
proof -
  let ?w1 = "logger_warning (Format ''Pruning {}s'' [ArgStr (model_name m)]) w"
  let ?used = "remdups (map id_name (job_tbl (db ?w1)))"
  let ?unused = "map anc_id (filter (\<lambda>r. anc_id r \<notin> set ?used) (objects m (db ?w1)))"
  let ?w2 = "logger_warning
                 (Format ''Removing {} records from {}''
                    [ArgInt (int (length ?unused)), ArgStr (model_name m)]) ?w1"
  from assms have run: "prune_loop self m ?unused ?w2 = Some (Inr (), w')"
    by (simp add: prune_def Let_def)
  note r = prune_loop_result [OF run]
  have "objects m (db w') = filter (\<lambda>r. anc_id r \<notin> set ?unused) (objects m (db w))"
    using r by (simp add: logger_warning_simps)
  also have "\<dots> = filter (\<lambda>r. anc_id r \<in> id_name ` set (job_tbl (db w))) (objects m (db w))"
    by (rule filter_cong) (auto simp: logger_warning_simps)
  finally show "objects m (db w') =
           filter (\<lambda>r. anc_id r \<in> id_name ` set (job_tbl (db w))) (objects m (db w))" .
  show "\<forall>m'. m' \<noteq> m \<longrightarrow> objects m' (db w') = objects m' (db w)"
    using r by (simp add: logger_warning_simps)
  show "job_tbl (db w') = job_tbl (db w)"
    using r by (simp add: logger_warning_simps)
qed

lemma and_then_Some_Inr:
  "and_then r f = Some (Inr u, w') \<Longrightarrow> \<exists>w1. r = Some (Inr (), w1) \<and> f w1 = Some (Inr u, w')"
  by (auto simp: and_then_def split: option.splits prod.splits sum.splits)

lemma remove_leftovers_result:
  assumes "remove_leftovers self w = Some (Inr (), w')"
  shows "objects JobType (db w') =
           filter (\<lambda>r. anc_id r \<in> job_type_id ` set (job_tbl (db w))) (objects JobType (db w))"
    and "objects JobGroup (db w') =
           filter (\<lambda>r. anc_id r \<in> job_group_id ` set (job_tbl (db w))) (objects JobGroup (db w))"
    and "objects Machine (db w') =
           filter (\<lambda>r. anc_id r \<in> machine_id ` set (job_tbl (db w))) (objects Machine (db w))"
    and "job_tbl (db w') = job_tbl (db w)"
proof -
  let ?w0 = "logger_warning (Text ''Pruning ancillary data: job types, groups and machines'') w"
  from assms obtain w2 where
    p12: "and_then (prune self job_type_id JobType ?w0) (prune self job_group_id JobGroup) = Some (Inr (), w2)"
    and p3: "prune self machine_id Machine w2 = Some (Inr (), w')"
    unfolding remove_leftovers_def by (blast dest: and_then_Some_Inr)
  from p12 obtain w1 where
    p1: "prune self job_type_id JobType ?w0 = Some (Inr (), w1)"
    and p2: "prune self job_group_id JobGroup w1 = Some (Inr (), w2)"
    by (blast dest: and_then_Some_Inr)
  note r1 = prune_result [OF p1] and r2 = prune_result [OF p2] and r3 = prune_result [OF p3]
  have j1: "job_tbl (db w1) = job_tbl (db w)" using r1(3) by (simp add: logger_warning_simps)
  have j2: "job_tbl (db w2) = job_tbl (db w)" using r2(3) j1 by simp
  show "job_tbl (db w') = job_tbl (db w)" using r3(3) j2 by simp
  have "objects JobType (db w') = objects JobType (db w1)"
    using r2(2) r3(2) by simp
  then show "objects JobType (db w') =
           filter (\<lambda>r. anc_id r \<in> job_type_id ` set (job_tbl (db w))) (objects JobType (db w))"
    using r1(1) by (simp add: logger_warning_simps)
  have "objects JobGroup (db w') = objects JobGroup (db w2)" "objects JobGroup (db w1) = objects JobGroup (db w)"
    using r1(2) r3(2) by (simp_all add: logger_warning_simps)
  then show "objects JobGroup (db w') =
           filter (\<lambda>r. anc_id r \<in> job_group_id ` set (job_tbl (db w))) (objects JobGroup (db w))"
    using r2(1) j1 by simp
  have "objects Machine (db w2) = objects Machine (db w)"
    using r1(2) r2(2) by (simp add: logger_warning_simps)
  then show "objects Machine (db w') =
           filter (\<lambda>r. anc_id r \<in> machine_id ` set (job_tbl (db w))) (objects Machine (db w))"
    using r3(1) j2 by simp
qed

lemma remove_leftovers_completes:
  assumes "0 < cycler_chunk_size self"
  shows "\<exists>w'. remove_leftovers self w = Some (Inr (), w') \<and> (\<exists>l. logged w' = logged w @ l)"
proof -
  have p: "\<exists>w'. prune self id_name m w = Some (Inr (), w') \<and> (\<exists>l. logged w' = logged w @ l)"
    for id_name m w
  proof -
    let ?w1 = "logger_warning (Format ''Pruning {}s'' [ArgStr (model_name m)]) w"
    let ?used = "remdups (map id_name (job_tbl (db ?w1)))"
    let ?unused = "map anc_id (filter (\<lambda>r. anc_id r \<notin> set ?used) (objects m (db ?w1)))"
    let ?w2 = "logger_warning
                 (Format ''Removing {} records from {}''
                    [ArgInt (int (length ?unused)), ArgStr (model_name m)]) ?w1"
    from prune_loop_terminates [OF assms, of m ?unused ?w2] obtain w' l where
      "prune_loop self m ?unused ?w2 = Some (Inr (), w')" "logged w' = logged ?w2 @ l"
      by blast
    then have "prune self id_name m w = Some (Inr (), w')" "\<exists>l. logged w' = logged w @ l"
      by (simp_all add: prune_def Let_def logger_warning_simps)
    then show ?thesis by blast
  qed
  let ?w0 = "logger_warning (Text ''Pruning ancillary data: job types, groups and machines'') w"
  from p [of job_type_id JobType ?w0] obtain w1 l1 where
    1: "prune self job_type_id JobType ?w0 = Some (Inr (), w1)" "logged w1 = logged ?w0 @ l1" by blast
  from p [of job_group_id JobGroup w1] obtain w2 l2 where
    2: "prune self job_group_id JobGroup w1 = Some (Inr (), w2)" "logged w2 = logged w1 @ l2" by blast
  from p [of machine_id Machine w2] obtain w3 l3 where
    3: "prune self machine_id Machine w2 = Some (Inr (), w3)" "logged w3 = logged w2 @ l3" by blast
  have "remove_leftovers self w = Some (Inr (), w3)"
    by (simp add: remove_leftovers_def and_then_def 1 2 3)
  moreover have "\<exists>l. logged w3 = logged w @ l"
    by (simp add: 1 2 3 logger_warning_simps)
  ultimately show ?thesis by blast
qed


text \<open>
  Claim C7. With a positive chunk size \<^verbatim>\<open>remove_leftovers\<close> returns normally. Whenever it
  has returned normally, each of the three ancillary tables (job types, job groups,
  machines) holds exactly the rows it held before whose id some job refers to through
  the matching column: no remaining row is without a referencing job, and no row that a
  job refers to was deleted. The jobs themselves are untouched.
\<close>

theorem remove_leftovers_prunes_orphans:
  "(0 < cycler_chunk_size self \<longrightarrow> (\<exists>w'. remove_leftovers self w = Some (Inr (), w'))) \<and>
   (\<forall>w'. remove_leftovers self w = Some (Inr (), w') \<longrightarrow>
      job_tbl (db w') = job_tbl (db w) \<and>
      (\<forall>(id_name, m) \<in> {(job_type_id, JobType), (job_group_id, JobGroup), (machine_id, Machine)}.
           objects m (db w') =
             filter (\<lambda>r. anc_id r \<in> id_name ` set (job_tbl (db w))) (objects m (db w)) \<and>
           (\<forall>r \<in> set (objects m (db w')). \<exists>j \<in> set (job_tbl (db w')). id_name j = anc_id r) \<and>
           (\<forall>r \<in> set (objects m (db w)).
               (\<exists>j \<in> set (job_tbl (db w)). id_name j = anc_id r) \<longrightarrow> r \<in> set (objects m (db w')))))"
proof (intro conjI allI impI)
  assume "0 < cycler_chunk_size self"
  from remove_leftovers_completes [OF this, of w]
  show "\<exists>w'. remove_leftovers self w = Some (Inr (), w')" by blast
next
  fix w'
  assume run: "remove_leftovers self w = Some (Inr (), w')"
  note r = remove_leftovers_result [OF run]
  show "job_tbl (db w') = job_tbl (db w)" by (rule r(4))
  define P where "P = (\<lambda>(id_name :: job \<Rightarrow> int) m.
           objects m (db w') =
             filter (\<lambda>r. anc_id r \<in> id_name ` set (job_tbl (db w))) (objects m (db w)) \<and>
           (\<forall>r \<in> set (objects m (db w')). \<exists>j \<in> set (job_tbl (db w')). id_name j = anc_id r) \<and>
           (\<forall>r \<in> set (objects m (db w)).
               (\<exists>j \<in> set (job_tbl (db w)). id_name j = anc_id r) \<longrightarrow> r \<in> set (objects m (db w'))))"
  have step: "P id_name m"
    if eq: "objects m (db w') =
             filter (\<lambda>r. anc_id r \<in> id_name ` set (job_tbl (db w))) (objects m (db w))"
    for id_name m
    unfolding P_def
  proof (intro conjI)
    show "objects m (db w') =
             filter (\<lambda>r. anc_id r \<in> id_name ` set (job_tbl (db w))) (objects m (db w))"
      by (rule eq)
    show "\<forall>r \<in> set (objects m (db w')). \<exists>j \<in> set (job_tbl (db w')). id_name j = anc_id r"
      unfolding eq r(4) by auto
    show "\<forall>r \<in> set (objects m (db w)).
               (\<exists>j \<in> set (job_tbl (db w)). id_name j = anc_id r) \<longrightarrow> r \<in> set (objects m (db w'))"
      unfolding eq by (auto simp: image_iff) metis
  qed
  have "\<forall>(id_name, m) \<in> {(job_type_id, JobType), (job_group_id, JobGroup), (machine_id, Machine)}.
          P id_name m"
    using step [OF r(1)] step [OF r(2)] step [OF r(3)] by simp
  then show "\<forall>(id_name, m) \<in> {(job_type_id, JobType), (job_group_id, JobGroup), (machine_id, Machine)}.
           objects m (db w') =
             filter (\<lambda>r. anc_id r \<in> id_name ` set (job_tbl (db w))) (objects m (db w)) \<and>
           (\<forall>r \<in> set (objects m (db w')). \<exists>j \<in> set (job_tbl (db w')). id_name j = anc_id r) \<and>
           (\<forall>r \<in> set (objects m (db w)).
               (\<exists>j \<in> set (job_tbl (db w)). id_name j = anc_id r) \<longrightarrow> r \<in> set (objects m (db w')))"
    unfolding P_def .
qed

theorem remove_leftovers_prunes_orphans_witness:
  "\<exists>w'. remove_leftovers cycler_chunk_2 jobs_world = Some (Inr (), w') \<and>
         objects JobType (db w') =
           [\<lparr>anc_id = 1, anc_name = ''build''\<rparr>, \<lparr>anc_id = 3, anc_name = ''test''\<rparr>] \<and>
         objects JobGroup (db w') = [\<lparr>anc_id = 10, anc_name = ''opt''\<rparr>] \<and>
         objects Machine (db w') =
           [\<lparr>anc_id = 100, anc_name = ''w1''\<rparr>, \<lparr>anc_id = 101, anc_name = ''w2''\<rparr>]"
proof -
  note inst = remove_leftovers_prunes_orphans [of cycler_chunk_2 jobs_world]
  have "0 < cycler_chunk_size cycler_chunk_2" by (simp add: cycler_chunk_2_def)
  with inst obtain w' where
    run: "remove_leftovers cycler_chunk_2 jobs_world = Some (Inr (), w')" by blast
  with inst
  have "\<forall>(id_name, m) \<in> {(job_type_id, JobType), (job_group_id, JobGroup), (machine_id, Machine)}.
           objects m (db w') =
             filter (\<lambda>r. anc_id r \<in> id_name ` set (job_tbl (db jobs_world))) (objects m (db jobs_world))"
    by blast
  then have "objects JobType (db w') =
           [\<lparr>anc_id = 1, anc_name = ''build''\<rparr>, \<lparr>anc_id = 3, anc_name = ''test''\<rparr>]"
    and "objects JobGroup (db w') = [\<lparr>anc_id = 10, anc_name = ''opt''\<rparr>]"
    and "objects Machine (db w') =
           [\<lparr>anc_id = 100, anc_name = ''w1''\<rparr>, \<lparr>anc_id = 101, anc_name = ''w2''\<rparr>]"
    by (simp_all add: jobs_world_def world_of_def empty_database_def objects_def)
  with run show ?thesis by blast
qed

lemma prune_error:
  assumes "prune self id_name m w = Some (Inl x, w')"
  shows "x = NegativeIndexing"
proof -
  from assms obtain u w2 where "prune_loop self m u w2 = Some (Inl x, w')"
    by (auto simp: prune_def Let_def)
  from prune_loop_result [OF this] show ?thesis by simp
qed

lemma and_then_Some_Inl:
  "and_then r f = Some (Inl x, w') \<Longrightarrow>
     r = Some (Inl x, w') \<or> (\<exists>w1. r = Some (Inr (), w1) \<and> f w1 = Some (Inl x, w'))"
  by (auto simp: and_then_def split: option.splits prod.splits sum.splits)

lemma remove_leftovers_error:
  assumes "remove_leftovers self w = Some (Inl x, w')"
  shows "x = NegativeIndexing"
  using assms unfolding remove_leftovers_def
  by (blast dest: and_then_Some_Inl prune_error)

text \<open>
  Claim C5. When \<^verbatim>\<open>Job.objects.cycle_data\<close> raises OperationalError, \<^verbatim>\<open>cycle\<close> logs it as
  an error and goes on with \<^verbatim>\<open>remove_leftovers\<close> on the store as the failed delete left
  it; the result of \<^verbatim>\<open>cycle\<close> is the result of that pruning, never the OperationalError,
  and with a positive chunk size \<^verbatim>\<open>cycle\<close> returns normally with the error in the log.
\<close>

theorem cycle_survives_operational_error:
  assumes "cycle_data (cycler_cycle_interval self) (cycler_chunk_size self) (cycler_sleep_time self)
             (logger_warning (Text ''Cycling jobs across all repositories'') w)
           = (Inl (OperationalError e), w1)"
  shows "TreeherderCycler_cycle cycle_data self w =
           remove_leftovers self
             (logger_error (Format ''Error running cycle_data: {}'' [ArgErr (OperationalError e)]) w1) \<and>
         (\<forall>x w'. TreeherderCycler_cycle cycle_data self w \<noteq> Some (Inl (OperationalError x), w')) \<and>
         (0 < cycler_chunk_size self \<longrightarrow>
            (\<exists>w'. TreeherderCycler_cycle cycle_data self w = Some (Inr (), w') \<and>
                  (ERROR, Format ''Error running cycle_data: {}'' [ArgErr (OperationalError e)])
                    \<in> set (logged w')))"
proof (intro conjI allI impI)
  let ?w2 = "logger_error (Format ''Error running cycle_data: {}'' [ArgErr (OperationalError e)]) w1"
  show eq: "TreeherderCycler_cycle cycle_data self w = remove_leftovers self ?w2"
    using assms by (simp add: TreeherderCycler_cycle_def)
  show "TreeherderCycler_cycle cycle_data self w \<noteq> Some (Inl (OperationalError x), w')" for x w'
    unfolding eq using remove_leftovers_error [of self ?w2 "OperationalError x" w'] by auto
  assume "0 < cycler_chunk_size self"
  from remove_leftovers_completes [OF this, of ?w2] obtain w' l where
    "remove_leftovers self ?w2 = Some (Inr (), w')" "logged w' = logged ?w2 @ l" by blast
  then show "\<exists>w'. TreeherderCycler_cycle cycle_data self w = Some (Inr (), w') \<and>
                  (ERROR, Format ''Error running cycle_data: {}'' [ArgErr (OperationalError e)])
                    \<in> set (logged w')"
    unfolding eq by (intro exI [of _ w']) (simp add: logger_error_simps)
qed

theorem cycle_survives_operational_error_witness:
  "\<exists>w'. TreeherderCycler_cycle failing_cycle_data cycler_chunk_2 jobs_world = Some (Inr (), w') \<and>
         (ERROR, Format ''Error running cycle_data: {}''
                   [ArgErr (OperationalError ''MySQL server has gone away'')]) \<in> set (logged w')"
proof -
  let ?w1 = "(logger_warning (Text ''Cycling jobs across all repositories'') jobs_world)
               \<lparr>db := (db jobs_world)\<lparr>job_tbl := tl (job_tbl (db jobs_world))\<rparr>\<rparr>"
  have raised: "failing_cycle_data (cycler_cycle_interval cycler_chunk_2)
      (cycler_chunk_size cycler_chunk_2) (cycler_sleep_time cycler_chunk_2)
      (logger_warning (Text ''Cycling jobs across all repositories'') jobs_world)
    = (Inl (OperationalError ''MySQL server has gone away''), ?w1)"
    by (simp add: failing_cycle_data_def logger_warning_def)
  have positive: "0 < cycler_chunk_size cycler_chunk_2"
    by (simp add: cycler_chunk_2_def)
  from cycle_survives_operational_error
    [of failing_cycle_data cycler_chunk_2 jobs_world "''MySQL server has gone away''" ?w1,
     OF raised] positive
  show ?thesis by blast
qed

section \<open>The runtime budget of the performance-data cycler\<close>

text \<open>
  Claim C6. When \<^verbatim>\<open>PerformanceDatum.objects.cycle_data\<close> raises, \<^verbatim>\<open>PerfherderCycler.cycle\<close>
  catches the exception if and only if it is MaxRuntimeExceeded: it then logs the
  exception as a warning and returns normally, keeping what the manager had done. Any
  other exception leaves \<^verbatim>\<open>cycle\<close> as it was raised, with nothing logged by \<^verbatim>\<open>cycle\<close>.
\<close>

theorem perf_cycle_catches_max_runtime:
  assumes "removal_strategies self now_main now_try = Inr ss"
    and "cycle_data ss started_at max_runtime w = (Inl ex, w1)"
  shows "((\<exists>msg. ex = MaxRuntimeExceeded msg) \<longrightarrow>
            PerfherderCycler_cycle cycle_data self started_at now_main now_try w =
              (Inr (), w1\<lparr>logged := logged w1 @ [(WARNING, Exc ex)]\<rparr>)) \<and>
         ((\<forall>msg. ex \<noteq> MaxRuntimeExceeded msg) \<longrightarrow>
            PerfherderCycler_cycle cycle_data self started_at now_main now_try w = (Inl ex, w1))"
  using assms by (cases ex) (simp_all add: PerfherderCycler_cycle_def logger_warning_def)

theorem perf_cycle_catches_max_runtime_witness:
  "PerfherderCycler_cycle out_of_time cycler_365 clock_reading clock_reading (clock_reading + 7)
     mixed_world =
     (Inr (), mixed_world\<lparr>logged := logged mixed_world @
        [(WARNING, Exc (MaxRuntimeExceeded ''Max runtime for performance data cycling exceeded''))]\<rparr>) \<and>
   PerfherderCycler_cycle lost_connection cycler_365 clock_reading clock_reading (clock_reading + 7)
     mixed_world =
     (Inl (OperationalError ''MySQL server has gone away''), mixed_world)"
  using perf_cycle_catches_max_runtime [OF strategies_365, of out_of_time clock_reading mixed_world
      "MaxRuntimeExceeded ''Max runtime for performance data cycling exceeded''" mixed_world]
    perf_cycle_catches_max_runtime [OF strategies_365, of lost_connection clock_reading mixed_world
      "OperationalError ''MySQL server has gone away''" mixed_world]
  by (simp add: out_of_time_def lost_connection_def)

end
